theory Spec2Isabelle
  imports Main "HOL-Library.Word"
begin

section \<open>Python values used by \<^verbatim>\<open>local_utils/data_utils.py\<close>\<close>

text \<open>
  A character of a Python \<^verbatim>\<open>str\<close> is a Unicode code point, a natural number here, and
  a \<^verbatim>\<open>str\<close> is a list of code points; \<open>lit\<close> writes one from an Isabelle string
  literal. Python's code points end at U+10FFFF; the model sets no bound. Python
  integers are unbounded, so they are \<^typ>\<open>int\<close>.
  The two dictionaries come from JSON files read by \<^verbatim>\<open>establish_char_dict\<close>, which is
  not part of the sources at hand; they are parameters of every function here.
  \<^item> \<^verbatim>\<open>ord_map\<close>: string keys and string values (a decimal index and the decimal
    ordinal of a character). \<^verbatim>\<open>char_to_int\<close> walks \<^verbatim>\<open>items()\<close> in order, so
    it is an association list; a lookup \<^verbatim>\<open>ord_map[k]\<close> is \<^const>\<open>map_of\<close>.
  \<^item> \<^verbatim>\<open>char_dict\<close>: string keys, and one character as value; it is only ever
    subscripted.
\<close>

type_synonym codepoint = nat
type_synonym pystr = "codepoint list"

definition lit :: "string \<Rightarrow> pystr" where
  "lit s = map of_char s"

type_synonym ord_map = "(pystr \<times> pystr) list"
type_synonym char_dict = "(pystr \<times> codepoint) list"

text \<open>
  The exceptions of the module. Python raises \<^verbatim>\<open>KeyError\<close> both in the last line of
  \<^verbatim>\<open>char_to_int\<close> (no entry of \<^verbatim>\<open>ord_map\<close> has the ordinal) and when a dictionary
  is subscripted with a missing key; the two raise sites are kept apart.
\<close>

datatype error =
    KeyError_missing_character
  | KeyError_lookup
  | ValueError
  | TypeError
  | IndexError
  | AssertionError
  | UnicodeEncodeError

subsection \<open>The builtins \<^verbatim>\<open>str.lower\<close> and \<^verbatim>\<open>int\<close>\<close>

text \<open>
  \<^verbatim>\<open>str.lower\<close> and \<^verbatim>\<open>int\<close> of a string follow the Unicode character database:
  the lower-case mappings (one character can map to two, and a capital sigma maps
  according to its neighbours), the decimal digits and the white space of all scripts.
  The database is not reproduced. The functions of the module that call the two
  builtins take them as a parameter, and what is proved holds for every such pair.
  \<open>str_lower py s\<close> is \<^verbatim>\<open>s.lower()\<close>; \<open>str_int py s\<close> is \<^verbatim>\<open>int(s)\<close>, with
  \<^const>\<open>None\<close> for \<^verbatim>\<open>ValueError\<close>.
\<close>

record builtins =
  str_lower :: "pystr \<Rightarrow> pystr"
  str_int :: "pystr \<Rightarrow> int option"

text \<open>
  \<^verbatim>\<open>ord(s)\<close> is the code point of a string of one character and raises
  \<^verbatim>\<open>TypeError\<close> on any other string.
\<close>

definition py_ord :: "pystr \<Rightarrow> error + codepoint" where
  "py_ord s = (case s of [c] \<Rightarrow> Inr c | _ \<Rightarrow> Inl TypeError)"

subsection \<open>\<^verbatim>\<open>str\<close> of an integer\<close>

definition digit_char :: "nat \<Rightarrow> codepoint" where
  "digit_char d = 48 + d"

function str_nat :: "nat \<Rightarrow> pystr" where
  "str_nat n = (if n < 10 then [digit_char n] else str_nat (n div 10) @ [digit_char (n mod 10)])"
  by pat_completeness auto
termination
  by (relation "measure (\<lambda>n. n)") auto

declare str_nat.simps [simp del]

definition py_str :: "int \<Rightarrow> pystr" where
  "py_str i = (if i < 0 then 45 # str_nat (nat (- i)) else str_nat (nat i))"

text \<open>The number that a string of decimal digits denotes.\<close>

definition digit_val :: "codepoint \<Rightarrow> nat" where
  "digit_val c = c - 48"

definition decimal :: "pystr \<Rightarrow> nat" where
  "decimal cs = foldl (\<lambda>a c. 10 * a + digit_val c) 0 cs"

subsection \<open>The builtins on the strings of the examples\<close>

text \<open>
  The examples below need the two builtins on concrete strings. \<open>lower_example\<close> is
  \<^verbatim>\<open>str.lower\<close> on every string over U+0000 to U+00FF (there the characters with a
  lower-case mapping are \<^verbatim>\<open>A\<close> to \<^verbatim>\<open>Z\<close> and U+00C0 to U+00DE without the
  multiplication sign U+00D7, each mapping to the code point 32 above it), on the
  capital I with dot above U+0130 (two code points: \<^verbatim>\<open>i\<close> and the combining dot
  U+0307), and on the Greek strings of the examples: capital alpha U+0391 gives alpha
  U+03B1, capital sigma U+03A3 alone gives sigma U+03C3, capital alpha followed by
  capital sigma gives alpha followed by final sigma U+03C2, and the three small letters
  stay as they are.
\<close>

definition lower_char_example :: "codepoint \<Rightarrow> codepoint" where
  "lower_char_example n =
     (if (65 \<le> n \<and> n \<le> 90) \<or> (192 \<le> n \<and> n \<le> 222 \<and> n \<noteq> 215) then n + 32
      else if n = 0x391 then 0x3B1
      else if n = 0x3A3 then 0x3C3
      else n)"

definition lower_example :: "pystr \<Rightarrow> pystr" where
  "lower_example s =
     (if s = [0x391, 0x3A3] then [0x3B1, 0x3C2]
      else if s = [0x130] then [0x69, 0x307]
      else map lower_char_example s)"

text \<open>
  \<open>int_example\<close> is \<^verbatim>\<open>int(s)\<close> in base ten on every string over U+0000 to U+00FF:
  white space around the literal is dropped (the characters U+0009 to U+000D, the
  space, U+0085 and U+00A0), one sign may come first, then decimal digits, where single
  underscores may stand between digits. Anything else raises \<^verbatim>\<open>ValueError\<close>.
\<close>

definition is_space :: "codepoint \<Rightarrow> bool" where
  "is_space n = ((9 \<le> n \<and> n \<le> 13) \<or> n = 32 \<or> n = 133 \<or> n = 160)"

definition strip :: "pystr \<Rightarrow> pystr" where
  "strip s = rev (dropWhile is_space (rev (dropWhile is_space s)))"

definition is_digit :: "codepoint \<Rightarrow> bool" where
  "is_digit c = (48 \<le> c \<and> c \<le> 57)"

fun digits_value :: "nat \<Rightarrow> pystr \<Rightarrow> nat option" where
  "digits_value acc [] = Some acc"
| "digits_value acc (c # cs) =
     (if is_digit c then digits_value (10 * acc + digit_val c) cs
      else if c = 95 then
        (case cs of
           [] \<Rightarrow> None
         | d # ds \<Rightarrow> if is_digit d then digits_value (10 * acc + digit_val d) ds else None)
      else None)"

definition parse_digits :: "pystr \<Rightarrow> nat option" where
  "parse_digits s =
     (case s of
        [] \<Rightarrow> None
      | c # cs \<Rightarrow> if is_digit c then digits_value (digit_val c) cs else None)"

definition int_example :: "pystr \<Rightarrow> int option" where
  "int_example s =
     (case strip s of
        [] \<Rightarrow> None
      | c # cs \<Rightarrow>
          if c = 45 then map_option (\<lambda>n. - int n) (parse_digits cs)
          else if c = 43 then map_option int (parse_digits cs)
          else map_option int (parse_digits (c # cs)))"

definition example_builtins :: builtins where
  "example_builtins = \<lparr>str_lower = lower_example, str_int = int_example\<rparr>"

section \<open>\<^verbatim>\<open>FeatureIO\<close>: the character codec\<close>

text \<open>
  \<^verbatim>\<open>char_to_int\<close>: \<^verbatim>\<open>temp = ord(char.lower())\<close>, then the loop over
  \<^verbatim>\<open>self.__ord_map.items()\<close>, which returns at the first entry whose value is
  \<^verbatim>\<open>str(temp)\<close>; after the loop comes the \<^verbatim>\<open>raise KeyError\<close>.
\<close>

fun char_to_int_items :: "builtins \<Rightarrow> ord_map \<Rightarrow> pystr \<Rightarrow> error + int" where
  "char_to_int_items py [] s = Inl KeyError_missing_character"
| "char_to_int_items py ((k, v) # kvs) s =
     (if v = s then (case str_int py k of None \<Rightarrow> Inl ValueError | Some i \<Rightarrow> Inr i)
      else char_to_int_items py kvs s)"

definition char_to_int :: "builtins \<Rightarrow> ord_map \<Rightarrow> codepoint \<Rightarrow> error + int" where
  "char_to_int py om char =
     (case py_ord (str_lower py [char]) of
        Inl e \<Rightarrow> Inl e
      | Inr temp \<Rightarrow> char_to_int_items py om (str_nat temp))"

text \<open>
  The argument of \<^verbatim>\<open>int_to_char\<close> is an integer or, as its docstring allows, a string;
  inside \<^verbatim>\<open>sparse_tensor_to_str\<close> it is an element of a numpy array, which is a string
  or (for an array built from no value at all) the float \<^verbatim>\<open>1.0\<close>.
\<close>

datatype number = PyInt int | PyStr pystr | PyFloatOne

definition NUL :: codepoint where
  "NUL = 0"

definition getitem :: "char_dict \<Rightarrow> pystr \<Rightarrow> error + codepoint" where
  "getitem cd k = (case map_of cd k of None \<Rightarrow> Inl KeyError_lookup | Some c \<Rightarrow> Inr c)"

fun int_to_char :: "char_dict \<Rightarrow> number \<Rightarrow> error + codepoint" where
  "int_to_char cd (PyInt i) = (if i = 1 then Inr NUL else getitem cd (py_str i))"
| "int_to_char cd (PyStr s) = (if s = lit ''1'' then Inr NUL else getitem cd s)"
| "int_to_char cd PyFloatOne = Inr NUL"

text \<open>A comprehension whose body may raise: the first exception ends it.\<close>

fun mapM :: "('a \<Rightarrow> error + 'b) \<Rightarrow> 'a list \<Rightarrow> error + 'b list" where
  "mapM f [] = Inr []"
| "mapM f (x # xs) =
     (case f x of
        Inl e \<Rightarrow> Inl e
      | Inr y \<Rightarrow> (case mapM f xs of Inl e \<Rightarrow> Inl e | Inr ys \<Rightarrow> Inr (y # ys)))"

definition encode_labels ::
  "builtins \<Rightarrow> ord_map \<Rightarrow> pystr list \<Rightarrow> error + (int list list \<times> int list)" where
  "encode_labels py om labels =
     (case mapM (\<lambda>label. mapM (char_to_int py om) label) labels of
        Inl e \<Rightarrow> Inl e
      | Inr encoded_labels \<Rightarrow> Inr (encoded_labels, map (\<lambda>label. int (length label)) labels))"

section \<open>\<^verbatim>\<open>FeatureIO.sparse_tensor_to_str\<close>\<close>

text \<open>
  A \<^verbatim>\<open>tf.SparseTensor\<close> (or the \<^verbatim>\<open>SparseTensorValue\<close> a session returns) of rank two:
  \<^verbatim>\<open>indices\<close> is an array of integer pairs, \<^verbatim>\<open>values\<close> (the field \<open>values_arr\<close>) an
  array of integers.
\<close>

record sparse_tensor =
  indices :: "(int \<times> int) list"
  values_arr :: "int list"
  dense_shape :: "int \<times> int"

text \<open>
  Line 138: \<^verbatim>\<open>values = np.array([self.__ord_map[str(tmp)] for tmp in values])\<close>.
  The comprehension raises \<^verbatim>\<open>KeyError\<close> at the first value that is no key. The result
  is an array of fixed-width strings as wide as the longest one; an element read from
  such an array has lost its trailing NUL characters. A list with no element gives an
  array of floats.
\<close>

definition translate_values :: "ord_map \<Rightarrow> int list \<Rightarrow> error + pystr list" where
  "translate_values om vs =
     mapM (\<lambda>tmp. case map_of om (py_str tmp) of
                    None \<Rightarrow> Inl KeyError_lookup
                  | Some v \<Rightarrow> Inr v) vs"

definition np_str :: "pystr \<Rightarrow> pystr" where
  "np_str s = rev (dropWhile (\<lambda>c. c = NUL) (rev s))"

definition np_array :: "pystr list \<Rightarrow> number list" where
  "np_array vs = map (\<lambda>v. PyStr (np_str v)) vs"

text \<open>
  Line 141: \<^verbatim>\<open>np.ones(dense_shape, dtype=values.dtype)\<close>. A negative dimension raises
  \<^verbatim>\<open>ValueError\<close>. The one of a string type is the string \<^verbatim>\<open>'1'\<close>, the one of the
  float type is \<^verbatim>\<open>1.0\<close>.
\<close>

definition one_of_dtype :: "number list \<Rightarrow> number" where
  "one_of_dtype vs = (if vs = [] then PyFloatOne else PyStr (lit ''1''))"

definition np_ones :: "int \<times> int \<Rightarrow> number \<Rightarrow> error + number list list" where
  "np_ones shape one =
     (case shape of (rows, cols) \<Rightarrow>
        if rows < 0 \<or> cols < 0 then Inl ValueError
        else Inr (replicate (nat rows) (replicate (nat cols) one)))"

text \<open>
  An integer subscript of an axis of length \<open>n\<close>: from \<open>- n\<close> up to \<open>n - 1\<close>, the
  negative ones counting from the end; any other raises \<^verbatim>\<open>IndexError\<close>.
\<close>

definition np_index :: "int \<Rightarrow> int \<Rightarrow> nat option" where
  "np_index n i =
     (if - n \<le> i \<and> i < n then Some (nat (if i < 0 then i + n else i)) else None)"

text \<open>The cell of an array of the given shape that a pair of subscripts addresses.\<close>

definition cell :: "int \<times> int \<Rightarrow> int \<times> int \<Rightarrow> (nat \<times> nat) option" where
  "cell shape index =
     (case np_index (fst shape) (fst index) of
        None \<Rightarrow> None
      | Some r \<Rightarrow> (case np_index (snd shape) (snd index) of
                    None \<Rightarrow> None
                  | Some c \<Rightarrow> Some (r, c)))"

definition setitem ::
  "int \<times> int \<Rightarrow> number list list \<Rightarrow> int \<times> int \<Rightarrow> number \<Rightarrow> error + number list list" where
  "setitem shape grid index v =
     (case cell shape index of
        None \<Rightarrow> Inl IndexError
      | Some (r, c) \<Rightarrow> Inr (grid[r := (grid ! r)[c := v]]))"

text \<open>
  Lines 144 and 145: \<^verbatim>\<open>for i, index in enumerate(indices): number_lists[index[0],
  index[1]] = values[i]\<close>. The second list is what is left of \<^verbatim>\<open>values\<close> from position
  \<open>i\<close> on, so \<^verbatim>\<open>values[i]\<close> is its head and raises \<^verbatim>\<open>IndexError\<close> when nothing is
  left.
\<close>

fun fill :: "int \<times> int \<Rightarrow> number list list \<Rightarrow> (int \<times> int) list \<Rightarrow> number list
      \<Rightarrow> error + number list list" where
  "fill shape grid [] vs = Inr grid"
| "fill shape grid (index # is) [] = Inl IndexError"
| "fill shape grid (index # is) (v # vs) =
     (case setitem shape grid index v of
        Inl e \<Rightarrow> Inl e
      | Inr grid' \<Rightarrow> fill shape grid' is vs)"

text \<open>Lines 135 to 145: the dense array of ordinals.\<close>

definition number_lists :: "ord_map \<Rightarrow> sparse_tensor \<Rightarrow> error + number list list" where
  "number_lists om st =
     (case translate_values om (values_arr st) of
        Inl e \<Rightarrow> Inl e
      | Inr ords \<Rightarrow>
          (let vs = np_array ords in
           case np_ones (dense_shape st) (one_of_dtype vs) of
             Inl e \<Rightarrow> Inl e
           | Inr grid \<Rightarrow> fill (dense_shape st) grid (indices st) vs))"

text \<open>
  Line 152: \<^verbatim>\<open>''.join(c for c in str_list if c != '\x00')\<close>, each \<^verbatim>\<open>c\<close> being one
  character.
\<close>

definition join_row :: "codepoint list \<Rightarrow> pystr" where
  "join_row str_list = filter (\<lambda>c. c \<noteq> NUL) str_list"

text \<open>Lines 146 to 148: \<^verbatim>\<open>int_to_char\<close> on every cell, row by row.\<close>

definition str_lists :: "ord_map \<Rightarrow> char_dict \<Rightarrow> sparse_tensor \<Rightarrow> error + codepoint list list" where
  "str_lists om cd st =
     (case number_lists om st of
        Inl e \<Rightarrow> Inl e
      | Inr grid \<Rightarrow> mapM (\<lambda>number_list. mapM (int_to_char cd) number_list) grid)"

definition sparse_tensor_to_str :: "ord_map \<Rightarrow> char_dict \<Rightarrow> sparse_tensor \<Rightarrow> error + pystr list" where
  "sparse_tensor_to_str om cd st =
     (case str_lists om cd st of
        Inl e \<Rightarrow> Inl e
      | Inr sl \<Rightarrow> Inr (map join_row sl))"

text \<open>
  What lines 148 and 152 do to one sequence of numbers: \<^verbatim>\<open>int_to_char\<close> on every
  element, then the join without the NUL markers. \<open>decode_indices\<close> is the same on a
  sequence of integers, such as \<^verbatim>\<open>encode_labels\<close> produces.
\<close>

definition decode_numbers :: "char_dict \<Rightarrow> number list \<Rightarrow> error + pystr" where
  "decode_numbers cd number_list =
     (case mapM (int_to_char cd) number_list of
        Inl e \<Rightarrow> Inl e
      | Inr str_list \<Rightarrow> Inr (join_row str_list))"

definition decode_indices :: "char_dict \<Rightarrow> int list \<Rightarrow> error + pystr" where
  "decode_indices cd idxs = decode_numbers cd (map PyInt idxs)"

text \<open>
  The dictionaries as \<^verbatim>\<open>sparse_tensor_to_str\<close> reads them: \<^verbatim>\<open>ord_map\<close> from the index
  to the ordinal, \<^verbatim>\<open>char_dict\<close> from the ordinal to the character. They are
  consistent when the keys of \<^verbatim>\<open>ord_map\<close> are distinct (it is a dictionary), every
  key is the string that \<^verbatim>\<open>str\<close> prints for the integer that \<^verbatim>\<open>int\<close> reads from it,
  and \<^verbatim>\<open>char_dict\<close> has under every value of \<^verbatim>\<open>ord_map\<close> the character of which the
  value is the ordinal in decimal. This is a condition on the input of the codec, not
  part of it.
\<close>

definition dicts_consistent :: "builtins \<Rightarrow> ord_map \<Rightarrow> char_dict \<Rightarrow> bool" where
  "dicts_consistent py om cd =
     (distinct (map fst om)
      \<and> list_all (\<lambda>(k, v).
          (case str_int py k of None \<Rightarrow> False | Some i \<Rightarrow> k = py_str i)
          \<and> (case map_of cd v of None \<Rightarrow> False | Some c \<Rightarrow> v = str_nat c)) om)"

section \<open>\<^verbatim>\<open>TextFeatureWriter.write_features\<close>\<close>

text \<open>
  One \<^verbatim>\<open>tf.train.Example\<close> holds four features, each a list: the wrappers
  \<^verbatim>\<open>int64_feature\<close> and \<^verbatim>\<open>bytes_feature\<close> put a single value into a list of one
  element. \<^verbatim>\<open>int64_feature\<close> raises \<^verbatim>\<open>ValueError\<close> for an integer outside 64 bits,
  and \<^verbatim>\<open>bytes_feature\<close> encodes a string as UTF-8, which raises
  \<^verbatim>\<open>UnicodeEncodeError\<close> for a surrogate code point. The record file is the list of
  the examples written, in order. The directory creation, the status lines printed and
  the container format of the file are not modelled.
\<close>

type_synonym bytes = "8 word list"

record example =
  labels :: "int list"
  images :: "bytes list"
  imagenames :: "bytes list"
  lengths :: "int list"

definition int64 :: "int \<Rightarrow> bool" where
  "int64 v = (- (2 ^ 63) \<le> v \<and> v < 2 ^ 63)"

definition utf8_char :: "codepoint \<Rightarrow> error + bytes" where
  "utf8_char n =
     (if n < 0x80 then Inr [of_nat n]
      else if n < 0x800 then Inr [of_nat (0xC0 + n div 64), of_nat (0x80 + n mod 64)]
      else if 0xD800 \<le> n \<and> n \<le> 0xDFFF then Inl UnicodeEncodeError
      else if n < 0x10000 then
        Inr [of_nat (0xE0 + n div 4096), of_nat (0x80 + n div 64 mod 64),
             of_nat (0x80 + n mod 64)]
      else
        Inr [of_nat (0xF0 + n div 262144), of_nat (0x80 + n div 4096 mod 64),
             of_nat (0x80 + n div 64 mod 64), of_nat (0x80 + n mod 64)])"

definition utf8 :: "pystr \<Rightarrow> error + bytes" where
  "utf8 s = (case mapM utf8_char s of Inl e \<Rightarrow> Inl e | Inr bs \<Rightarrow> Inr (concat bs))"

text \<open>
  The loop of lines 183 to 191, with the examples written so far as state. The four
  features are built in the order of the source: \<^verbatim>\<open>labels[index]\<close> and its 64-bit
  check, \<^verbatim>\<open>imagenames[index]\<close> and its encoding, \<^verbatim>\<open>lengths[index]\<close> and its 64-bit
  check. A subscript past the end of its list raises \<^verbatim>\<open>IndexError\<close>. An exception
  leaves what was written before.
\<close>

fun write_loop ::
  "int list list \<Rightarrow> int list \<Rightarrow> pystr list \<Rightarrow> nat \<Rightarrow> bytes list \<Rightarrow> example list
     \<Rightarrow> error option \<times> example list" where
  "write_loop enc lens names index [] written = (None, written)"
| "write_loop enc lens names index (img # rest) written =
     (if \<not> index < length enc then (Some IndexError, written)
      else if \<not> list_all int64 (enc ! index) then (Some ValueError, written)
      else if \<not> index < length names then (Some IndexError, written)
      else
        (case utf8 (names ! index) of
           Inl e \<Rightarrow> (Some e, written)
         | Inr name \<Rightarrow>
             if \<not> index < length lens then (Some IndexError, written)
             else if \<not> int64 (lens ! index) then (Some ValueError, written)
             else write_loop enc lens names (Suc index) rest
                    (written @ [\<lparr>labels = enc ! index, images = [img],
                                 imagenames = [name], lengths = [lens ! index]\<rparr>])))"

text \<open>
  \<^verbatim>\<open>write_features\<close> returns the exception raised, if any, and the examples written.
  Line 172 is the assertion on the three lengths; line 176 takes \<^verbatim>\<open>max\<close> over the
  names, which raises \<^verbatim>\<open>ValueError\<close> on an empty list; line 178 encodes the labels.
\<close>

definition write_features ::
  "builtins \<Rightarrow> ord_map \<Rightarrow> pystr list \<Rightarrow> bytes list \<Rightarrow> pystr list
     \<Rightarrow> error option \<times> example list" where
  "write_features py om labels_in images_in imagenames_in =
     (if \<not> (length labels_in = length images_in \<and> length images_in = length imagenames_in)
      then (Some AssertionError, [])
      else if imagenames_in = [] then (Some ValueError, [])
      else
        (case encode_labels py om labels_in of
           Inl e \<Rightarrow> (Some e, [])
         | Inr (enc, lens) \<Rightarrow> write_loop enc lens imagenames_in 0 images_in []))"

section \<open>Auxiliary facts\<close>

subsection \<open>Comprehensions\<close>

lemma mapM_append:
  "mapM f (xs @ ys) =
     (case mapM f xs of
        Inl e \<Rightarrow> Inl e
      | Inr us \<Rightarrow> (case mapM f ys of Inl e \<Rightarrow> Inl e | Inr vs \<Rightarrow> Inr (us @ vs)))"
  by (induction xs) (auto split: sum.splits)

lemma mapM_map: "mapM f (map g xs) = mapM (\<lambda>x. f (g x)) xs"
  by (induction xs) (auto split: sum.splits)

lemma mapM_Inr_iff:
  "mapM f xs = Inr ys \<longleftrightarrow> list_all2 (\<lambda>x y. f x = Inr y) xs ys"
proof (induction xs arbitrary: ys)
  case Nil
  then show ?case by auto
next
  case (Cons x xs)
  show ?case
    by (cases ys) (auto simp: Cons.IH [symmetric] split: sum.splits)
qed

lemma find_SomeD: "find P xs = Some x \<Longrightarrow> x \<in> set xs \<and> P x"
  by (induction xs) (auto split: if_splits)

subsection \<open>Decimal strings\<close>

lemma lit_eq_iff [simp]: "lit a = lit b \<longleftrightarrow> a = b"
  unfolding lit_def by (rule inj_map_eq_map [OF inj_of_char])

lemma lit_Nil_iff [simp]: "lit s = [] \<longleftrightarrow> s = []"
  by (simp add: lit_def)

lemma lit_one: "lit ''1'' = [49]"
  by (simp add: lit_def)

lemma str_nat_one: "str_nat 1 = lit ''1''"
proof -
  have "str_nat 1 = [digit_char 1]"
    by (subst str_nat.simps) simp
  then show ?thesis
    by (simp add: digit_char_def lit_one)
qed

lemma digit_char_digit:
  assumes "d < 10"
  shows "is_digit (digit_char d)" and "digit_val (digit_char d) = d"
  using assms by (simp_all add: is_digit_def digit_val_def digit_char_def)

lemma str_nat_digits: "str_nat n \<noteq> [] \<and> (\<forall>c\<in>set (str_nat n). is_digit c)"
proof (induction n rule: str_nat.induct)
  case (1 n)
  show ?case
  proof (cases "n < 10")
    case True
    then show ?thesis by (simp add: str_nat.simps [of n] digit_char_digit)
  next
    case False
    then show ?thesis
      using "1" by (simp add: str_nat.simps [of n] digit_char_digit)
  qed
qed

lemma decimal_str_nat: "decimal (str_nat n) = n"
proof (induction n rule: str_nat.induct)
  case (1 n)
  show ?case
  proof (cases "n < 10")
    case True
    then show ?thesis by (simp add: str_nat.simps [of n] decimal_def digit_char_digit)
  next
    case False
    then have "decimal (str_nat n) = 10 * decimal (str_nat (n div 10)) + n mod 10"
      by (simp add: str_nat.simps [of n] decimal_def digit_char_digit)
    with False "1" show ?thesis by simp
  qed
qed

lemma str_nat_inj: "str_nat a = str_nat b \<Longrightarrow> a = b"
  by (metis decimal_str_nat)

lemma str_nat_no_NUL: "NUL \<notin> set (str_nat n)"
  using str_nat_digits [of n] by (auto simp: is_digit_def NUL_def)

lemma np_str_str_nat: "np_str (str_nat n) = str_nat n"
proof -
  have "last (str_nat n) \<noteq> NUL"
    using str_nat_digits [of n] str_nat_no_NUL [of n] by (metis last_in_set)
  then have "dropWhile (\<lambda>c. c = NUL) (rev (str_nat n)) = rev (str_nat n)"
    using str_nat_digits [of n] by (cases "rev (str_nat n)") (auto simp: last_rev hd_rev)
  then show ?thesis
    by (simp add: np_str_def)
qed

subsection \<open>More on comprehensions\<close>

lemma mapM_Inl: "mapM f xs = Inl e \<Longrightarrow> \<exists>x\<in>set xs. f x = Inl e"
  by (induction xs) (auto split: sum.splits)

lemma mapM_success: "\<forall>x\<in>set xs. \<exists>y. f x = Inr y \<Longrightarrow> \<exists>ys. mapM f xs = Inr ys"
  by (induction xs) (auto split: sum.splits)

lemma mapM_length: "mapM f xs = Inr ys \<Longrightarrow> length ys = length xs"
  by (simp add: mapM_Inr_iff list_all2_lengthD)

lemma mapM_nth: "mapM f xs = Inr ys \<Longrightarrow> i < length xs \<Longrightarrow> f (xs ! i) = Inr (ys ! i)"
  unfolding mapM_Inr_iff by (rule list_all2_nthD)

subsection \<open>Subscripts and the loop that fills the array\<close>

lemma np_index_bound: "np_index n i = Some r \<Longrightarrow> int r < n"
  by (auto simp: np_index_def split: if_splits)

lemma np_index_Some_iff:
  "0 \<le> r \<Longrightarrow> r < n \<Longrightarrow> np_index n i = Some (nat r) \<longleftrightarrow> i = r \<or> i = r - n"
  by (auto simp: np_index_def split: if_splits)

lemma np_index_None_iff: "np_index n i = None \<longleftrightarrow> \<not> (- n \<le> i \<and> i < n)"
  by (simp add: np_index_def)

lemma cell_SomeD:
  "cell shape ix = Some (r, c) \<Longrightarrow>
     np_index (fst shape) (fst ix) = Some r \<and> np_index (snd shape) (snd ix) = Some c"
  by (auto simp: cell_def split: option.splits)

lemma cell_None_iff:
  "cell (rows, cols) (i, j) = None \<longleftrightarrow> \<not> (- rows \<le> i \<and> i < rows \<and> - cols \<le> j \<and> j < cols)"
  by (auto simp: cell_def np_index_def split: option.splits)

lemma setitem_Inl: "setitem shape g ix v = Inl e \<Longrightarrow> e = IndexError \<and> cell shape ix = None"
  by (auto simp: setitem_def split: option.splits)

lemma setitem_Inr:
  "setitem shape g ix v = Inr g' \<Longrightarrow>
     \<exists>r c. cell shape ix = Some (r, c) \<and> g' = g[r := (g ! r)[c := v]]"
  by (auto simp: setitem_def split: option.splits)

lemma map_length_update: "map length (g[r := (g ! r)[c := v]]) = map length g"
proof (cases "r < length g")
  case True
  then show ?thesis
    by (simp add: map_update list_update_same_conv)
next
  case False
  then have "g[r := (g ! r)[c := v]] = g"
    by (intro list_update_beyond) simp
  then show ?thesis by simp
qed

lemma fill_shape: "fill shape g ixs vs = Inr g' \<Longrightarrow> map length g' = map length g"
proof (induction shape g ixs vs rule: fill.induct)
  case (3 shape grid index "is" v vs)
  then show ?case
    by (auto split: sum.splits dest!: setitem_Inr simp: map_length_update)
qed auto

lemma fill_Inl: "fill shape g ixs vs = Inl e \<Longrightarrow> e = IndexError"
  by (induction shape g ixs vs rule: fill.induct) (auto split: sum.splits dest: setitem_Inl)

lemma fill_succeeds_iff:
  "(\<exists>g'. fill shape g ixs vs = Inr g') \<longleftrightarrow>
     length ixs \<le> length vs \<and> (\<forall>ix\<in>set ixs. cell shape ix \<noteq> None)"
proof (induction shape g ixs vs rule: fill.induct)
  case (3 shape grid index "is" v vs)
  show ?case
  proof (cases "setitem shape grid index v")
    case (Inl e)
    then show ?thesis
      using setitem_Inl [OF Inl] by auto
  next
    case (Inr grid')
    then show ?thesis
      using "3" [OF Inr] setitem_Inr [OF Inr] by auto
  qed
qed auto

lemma update_other_cell:
  "(r', c') \<noteq> (r, c) \<Longrightarrow> g[r' := (g ! r')[c' := v]] ! r ! c = g ! r ! c"
proof (cases "r' = r")
  case False
  then show ?thesis by simp
next
  case True
  assume "(r', c') \<noteq> (r, c)"
  with True have c: "c' \<noteq> c" by simp
  show ?thesis
  proof (cases "r < length g")
    case True
    with \<open>r' = r\<close> c show ?thesis by simp
  next
    case False
    then have "g[r := (g ! r)[c' := v]] = g"
      by (intro list_update_beyond) simp
    with \<open>r' = r\<close> show ?thesis by simp
  qed
qed

lemma update_this_cell:
  "r < length g \<Longrightarrow> c < length (g ! r) \<Longrightarrow> g[r := (g ! r)[c := v]] ! r ! c = v"
  by simp

lemma fill_row_untouched:
  "fill shape g ixs vs = Inr g' \<Longrightarrow>
     \<forall>ix\<in>set ixs. np_index (fst shape) (fst ix) \<noteq> Some r \<Longrightarrow> g' ! r = g ! r"
proof (induction shape g ixs vs rule: fill.induct)
  case (3 shape grid index "is" v vs)
  from "3.prems"(1) obtain grid' where s: "setitem shape grid index v = Inr grid'"
    and f: "fill shape grid' is vs = Inr g'"
    by (auto split: sum.splits)
  from setitem_Inr [OF s] obtain r' c' where c: "cell shape index = Some (r', c')"
    and g: "grid' = grid[r' := (grid ! r')[c' := v]]"
    by auto
  from cell_SomeD [OF c] "3.prems"(2) have "r' \<noteq> r" by auto
  with g have "grid' ! r = grid ! r" by simp
  moreover have "g' ! r = grid' ! r"
    using "3.IH" [OF s f] "3.prems"(2) by simp
  ultimately show ?case by simp
qed auto

lemma fill_cell_untouched:
  "fill shape g ixs vs = Inr g' \<Longrightarrow>
     \<forall>ix\<in>set ixs. cell shape ix \<noteq> Some (r, c) \<Longrightarrow> g' ! r ! c = g ! r ! c"
proof (induction shape g ixs vs rule: fill.induct)
  case (3 shape grid index "is" v vs)
  from "3.prems"(1) obtain grid' where s: "setitem shape grid index v = Inr grid'"
    and f: "fill shape grid' is vs = Inr g'"
    by (auto split: sum.splits)
  from setitem_Inr [OF s] obtain r' c' where c: "cell shape index = Some (r', c')"
    and g: "grid' = grid[r' := (grid ! r')[c' := v]]"
    by auto
  from c "3.prems"(2) have "(r', c') \<noteq> (r, c)" by auto
  then have "grid' ! r ! c = grid ! r ! c"
    unfolding g by (rule update_other_cell)
  moreover have "g' ! r ! c = grid' ! r ! c"
    using "3.IH" [OF s f] "3.prems"(2) by simp
  ultimately show ?case by simp
qed auto

lemma fill_last_write:
  "fill shape g ixs vs = Inr g' \<Longrightarrow> j < length ixs \<Longrightarrow> cell shape (ixs ! j) = Some (r, c) \<Longrightarrow>
     \<forall>k. j < k \<and> k < length ixs \<longrightarrow> cell shape (ixs ! k) \<noteq> Some (r, c) \<Longrightarrow>
     r < length g \<Longrightarrow> c < length (g ! r) \<Longrightarrow> g' ! r ! c = vs ! j"
proof (induction shape g ixs vs arbitrary: j rule: fill.induct)
  case (3 shape grid index "is" v vs)
  from "3.prems"(1) obtain grid' where s: "setitem shape grid index v = Inr grid'"
    and f: "fill shape grid' is vs = Inr g'"
    by (auto split: sum.splits)
  from setitem_Inr [OF s] obtain r' c' where c': "cell shape index = Some (r', c')"
    and g: "grid' = grid[r' := (grid ! r')[c' := v]]"
    by auto
  have len: "map length grid' = map length grid"
    unfolding g by (rule map_length_update)
  then have lg: "length grid' = length grid"
    by (metis length_map)
  with len "3.prems"(5) have lr: "length (grid' ! r) = length (grid ! r)"
    by (metis nth_map)
  show ?case
  proof (cases j)
    case 0
    with "3.prems"(3) c' have [simp]: "r' = r" "c' = c" by auto
    have later: "\<forall>ix\<in>set is. cell shape ix \<noteq> Some (r, c)"
    proof
      fix ix assume "ix \<in> set is"
      then obtain k where "k < length is" "is ! k = ix"
        by (auto simp: in_set_conv_nth)
      with "3.prems"(4) [rule_format, of "Suc k"] 0 show "cell shape ix \<noteq> Some (r, c)"
        by auto
    qed
    have "g' ! r ! c = grid' ! r ! c"
      by (rule fill_cell_untouched [OF f later])
    also have "\<dots> = v"
      unfolding g using "3.prems"(5,6) by simp
    finally show ?thesis using 0 by simp
  next
    case (Suc j')
    have "g' ! r ! c = vs ! j'"
    proof (rule "3.IH" [OF s f])
      show "j' < length is" using "3.prems"(2) Suc by simp
      show "cell shape (is ! j') = Some (r, c)" using "3.prems"(3) Suc by simp
      show "\<forall>k. j' < k \<and> k < length is \<longrightarrow> cell shape (is ! k) \<noteq> Some (r, c)"
      proof (intro allI impI)
        fix k assume "j' < k \<and> k < length is"
        with "3.prems"(4) [rule_format, of "Suc k"] Suc show "cell shape (is ! k) \<noteq> Some (r, c)"
          by auto
      qed
      show "r < length grid'" using lg "3.prems"(5) by simp
      show "c < length (grid' ! r)" using lr "3.prems"(6) by simp
    qed
    with Suc show ?thesis by simp
  qed
qed auto

lemma number_lists_Inr:
  assumes "number_lists om st = Inr g"
  obtains ords where "translate_values om (values_arr st) = Inr ords"
    and "0 \<le> fst (dense_shape st)" and "0 \<le> snd (dense_shape st)"
    and "fill (dense_shape st)
           (replicate (nat (fst (dense_shape st)))
              (replicate (nat (snd (dense_shape st))) (one_of_dtype (np_array ords))))
           (indices st) (np_array ords) = Inr g"
  using assms
  by (cases "dense_shape st")
    (auto simp: number_lists_def np_ones_def Let_def split: sum.splits if_splits)

lemma number_lists_shape:
  assumes "number_lists om st = Inr g"
  shows "0 \<le> fst (dense_shape st)" and "0 \<le> snd (dense_shape st)"
    and "map length g = replicate (nat (fst (dense_shape st))) (nat (snd (dense_shape st)))"
proof -
  from assms obtain ords where
    "0 \<le> fst (dense_shape st)" "0 \<le> snd (dense_shape st)"
    "fill (dense_shape st)
           (replicate (nat (fst (dense_shape st)))
              (replicate (nat (snd (dense_shape st))) (one_of_dtype (np_array ords))))
           (indices st) (np_array ords) = Inr g"
    by (rule number_lists_Inr)
  then show "0 \<le> fst (dense_shape st)" "0 \<le> snd (dense_shape st)"
    "map length g = replicate (nat (fst (dense_shape st))) (nat (snd (dense_shape st)))"
    by (auto dest!: fill_shape)
qed

lemma mapM_mapM_lengths:
  "mapM (\<lambda>row. mapM f row) g = Inr sl \<Longrightarrow> map length sl = map length g"
  by (induction g arbitrary: sl) (auto split: sum.splits dest: mapM_length)

lemma str_lists_Inr:
  assumes "str_lists om cd st = Inr sl"
  obtains g where "number_lists om st = Inr g"
    and "mapM (\<lambda>number_list. mapM (int_to_char cd) number_list) g = Inr sl"
  using assms by (auto simp: str_lists_def split: sum.splits)

lemma sparse_tensor_to_str_Inr:
  assumes "sparse_tensor_to_str om cd st = Inr res"
  obtains sl where "str_lists om cd st = Inr sl" and "res = map join_row sl"
  using assms by (auto simp: sparse_tensor_to_str_def split: sum.splits)

lemma str_lists_shape:
  assumes "str_lists om cd st = Inr sl"
  shows "map length sl = replicate (nat (fst (dense_shape st))) (nat (snd (dense_shape st)))"
proof -
  from assms obtain g where g: "number_lists om st = Inr g"
    and m: "mapM (\<lambda>number_list. mapM (int_to_char cd) number_list) g = Inr sl"
    by (rule str_lists_Inr)
  show ?thesis
    using mapM_mapM_lengths [OF m] number_lists_shape(3) [OF g] by simp
qed

lemma mapM_replicate: "f x = Inr y \<Longrightarrow> mapM f (replicate n x) = Inr (replicate n y)"
  by (induction n) auto

lemma int_to_char_one: "int_to_char cd (one_of_dtype vs) = Inr NUL"
  by (simp add: one_of_dtype_def)

lemma join_row_replicate_NUL: "join_row (replicate n NUL) = []"
  by (simp add: join_row_def)

lemma int_to_char_Inl: "int_to_char cd x = Inl e \<Longrightarrow> e = KeyError_lookup"
  by (cases x) (auto simp: getitem_def split: if_splits option.splits)

lemma translate_values_Inr:
  assumes "translate_values om vs = Inr ords"
  shows "list_all2 (\<lambda>v ord. map_of om (py_str v) = Some ord) vs ords"
proof -
  from assms have "list_all2 (\<lambda>v ord. (case map_of om (py_str v) of
        None \<Rightarrow> Inl KeyError_lookup | Some w \<Rightarrow> Inr w) = Inr ord) vs ords"
    by (simp add: translate_values_def mapM_Inr_iff)
  then show ?thesis
    by (rule list_all2_mono) (auto split: option.splits)
qed

lemma translate_values_succeeds:
  assumes "\<forall>v\<in>set vs. py_str v \<in> fst ` set om"
  shows "\<exists>ords. translate_values om vs = Inr ords"
  unfolding translate_values_def
proof (rule mapM_success, rule ballI)
  fix v assume "v \<in> set vs"
  with assms have "map_of om (py_str v) \<noteq> None"
    by (simp add: map_of_eq_None_iff)
  then show "\<exists>y. (case map_of om (py_str v) of None \<Rightarrow> Inl KeyError_lookup | Some w \<Rightarrow> Inr w) = Inr y"
    by (auto split: option.splits)
qed

lemma update_cells:
  assumes "row' \<in> set (g[r := (g ! r)[c := v]])" and "x \<in> set row'"
  shows "x = v \<or> (\<exists>row\<in>set g. x \<in> set row)"
proof (cases "r < length g")
  case True
  from assms(1) have "row' = (g ! r)[c := v] \<or> row' \<in> set g"
    using set_update_subset_insert [of g r "(g ! r)[c := v]"] by auto
  then show ?thesis
  proof
    assume "row' = (g ! r)[c := v]"
    with assms(2) have "x = v \<or> x \<in> set (g ! r)"
      using set_update_subset_insert [of "g ! r" c v] by auto
    with True show ?thesis
      by (auto intro: nth_mem)
  next
    assume "row' \<in> set g"
    with assms(2) show ?thesis by auto
  qed
next
  case False
  then have "g[r := (g ! r)[c := v]] = g"
    by (intro list_update_beyond) simp
  with assms show ?thesis by auto
qed

lemma fill_cells:
  "fill shape g ixs vs = Inr g' \<Longrightarrow> row' \<in> set g' \<Longrightarrow> x \<in> set row' \<Longrightarrow>
     x \<in> set vs \<or> (\<exists>row\<in>set g. x \<in> set row)"
proof (induction shape g ixs vs rule: fill.induct)
  case (3 shape grid index "is" v vs)
  from "3.prems"(1) obtain grid' where s: "setitem shape grid index v = Inr grid'"
    and f: "fill shape grid' is vs = Inr g'"
    by (auto split: sum.splits)
  from setitem_Inr [OF s] obtain r c where g: "grid' = grid[r := (grid ! r)[c := v]]"
    by auto
  from "3.IH" [OF s f "3.prems"(2,3)]
  have "x \<in> set vs \<or> (\<exists>row\<in>set grid'. x \<in> set row)" .
  then show ?case
  proof
    assume "x \<in> set vs"
    then show ?thesis by simp
  next
    assume "\<exists>row\<in>set grid'. x \<in> set row"
    then obtain row where "row \<in> set grid'" "x \<in> set row" by auto
    from update_cells [OF this(1) [unfolded g] this(2)] show ?thesis by auto
  qed
qed auto

lemma cell_None_iff':
  "cell shape ix = None \<longleftrightarrow>
     \<not> (- fst shape \<le> fst ix \<and> fst ix < fst shape \<and> - snd shape \<le> snd ix \<and> snd ix < snd shape)"
  using cell_None_iff [of "fst shape" "snd shape" "fst ix" "snd ix"] by simp

lemma number_lists_eq_fill:
  assumes "translate_values om (values_arr st) = Inr ords"
    and "0 \<le> fst (dense_shape st)" and "0 \<le> snd (dense_shape st)"
  shows "number_lists om st =
     fill (dense_shape st)
       (replicate (nat (fst (dense_shape st)))
          (replicate (nat (snd (dense_shape st))) (one_of_dtype (np_array ords))))
       (indices st) (np_array ords)"
  using assms
  by (cases "dense_shape st") (simp add: number_lists_def np_ones_def Let_def)

lemma sparse_tensor_to_str_after_fill:
  assumes g: "number_lists om st = Inr g"
  shows "sparse_tensor_to_str om cd st \<noteq> Inl IndexError"
proof
  assume e: "sparse_tensor_to_str om cd st = Inl IndexError"
  then have "mapM (\<lambda>number_list. mapM (int_to_char cd) number_list) g = Inl IndexError"
    using g by (auto simp: sparse_tensor_to_str_def str_lists_def split: sum.splits)
  then obtain row where "mapM (int_to_char cd) row = Inl IndexError"
    by (auto dest: mapM_Inl)
  then obtain x where "int_to_char cd x = Inl IndexError"
    by (auto dest: mapM_Inl)
  then show False
    by (auto dest: int_to_char_Inl)
qed

subsection \<open>The loop of \<^verbatim>\<open>char_to_int\<close>\<close>

lemma mapM_cong: "(\<And>x. x \<in> set xs \<Longrightarrow> f x = g x) \<Longrightarrow> mapM f xs = mapM g xs"
  by (induction xs) (auto split: sum.splits)

lemma py_ord_Inr_iff: "py_ord s = Inr c \<longleftrightarrow> s = [c]"
  by (auto simp: py_ord_def split: list.splits)

lemma py_ord_Inl: "py_ord s = Inl e \<Longrightarrow> e = TypeError \<and> (\<forall>c. s \<noteq> [c])"
  by (auto simp: py_ord_def split: list.splits)

lemma char_to_int_single:
  "str_lower py [c] = [c'] \<Longrightarrow> char_to_int py om c = char_to_int_items py om (str_nat c')"
  by (simp add: char_to_int_def py_ord_def)

lemma char_to_int_not_single:
  "\<forall>c'. str_lower py [c] \<noteq> [c'] \<Longrightarrow> char_to_int py om c = Inl TypeError"
  by (cases "py_ord (str_lower py [c])")
    (auto simp: char_to_int_def py_ord_Inr_iff dest: py_ord_Inl)

lemma char_to_int_items_KeyError_iff:
  "(char_to_int_items py om s = Inl KeyError_missing_character) = (s \<notin> snd ` set om)"
  by (induction py om s rule: char_to_int_items.induct) (auto split: option.splits)

lemma char_to_int_items_first:
  "s \<notin> snd ` set pre \<Longrightarrow>
     char_to_int_items py (pre @ (k, s) # post) s =
       (case str_int py k of None \<Rightarrow> Inl ValueError | Some i \<Rightarrow> Inr i)"
  by (induction pre) auto

subsection \<open>A label through the codec and the decoder\<close>

lemma cell_row_entry:
  "j < n \<Longrightarrow> cell (1, int n) (0, int j) = Some (0, j)"
  by (simp add: cell_def np_index_def)

lemma fill_one_row:
  assumes vs: "length vs = n" and row: "length row = n"
  shows "fill (1, int n) [row] (map (\<lambda>j. (0, int j)) [0..<n]) vs = Inr [vs]"
proof -
  let ?ixs = "map (\<lambda>j. (0 :: int, int j)) [0..<n]"
  have "\<exists>g. fill (1, int n) [row] ?ixs vs = Inr g"
    unfolding fill_succeeds_iff using vs by (auto simp: cell_row_entry)
  then obtain g where g: "fill (1, int n) [row] ?ixs vs = Inr g" ..
  from fill_shape [OF g] row have shape: "map length g = [n]"
    by simp
  then obtain r0 where r0: "g = [r0]" and len: "length r0 = n"
    by (cases g) auto
  have "r0 ! j = vs ! j" if j: "j < n" for j
  proof -
    have "g ! 0 ! j = vs ! j"
    proof (rule fill_last_write [OF g])
      show "j < length ?ixs" using j by simp
      show "cell (1, int n) (?ixs ! j) = Some (0, j)"
        using j by (simp add: cell_row_entry)
      show "\<forall>k. j < k \<and> k < length ?ixs \<longrightarrow> cell (1, int n) (?ixs ! k) \<noteq> Some (0, j)"
        by (auto simp: cell_row_entry)
      show "0 < length [row]" by simp
      show "j < length ([row] ! 0)" using j row by simp
    qed
    then show ?thesis by (simp add: r0)
  qed
  then have "r0 = vs"
    using len vs by (intro nth_equalityI) auto
  with g r0 show ?thesis by simp
qed

lemma round_trip_char:
  assumes cons: "dicts_consistent py om cd"
    and lower: "str_lower py [c] = [c']"
    and present: "str_nat c' \<in> snd ` set om"
  obtains i where "char_to_int py om c = Inr i"
    and "map_of om (py_str i) = Some (str_nat c')"
    and "map_of cd (str_nat c') = Some c'"
proof -
  from present have "\<exists>kv\<in>set om. snd kv = str_nat c'" by force
  then obtain pre kv post where split: "om = pre @ kv # post" and kv: "snd kv = str_nat c'"
    and first: "\<forall>x\<in>set pre. snd x \<noteq> str_nat c'"
    by (auto simp: split_list_first_prop_iff)
  obtain k where kv_eq: "kv = (k, str_nat c')"
    using kv by (cases kv) auto
  have mem: "(k, str_nat c') \<in> set om"
    by (simp add: split kv_eq)
  from cons have dist: "distinct (map fst om)"
    and entries: "\<forall>(k, v)\<in>set om.
        (case str_int py k of None \<Rightarrow> False | Some i \<Rightarrow> k = py_str i)
        \<and> (case map_of cd v of None \<Rightarrow> False | Some c \<Rightarrow> v = str_nat c)"
    by (auto simp: dicts_consistent_def list_all_iff)
  from entries mem have key: "case str_int py k of None \<Rightarrow> False | Some i \<Rightarrow> k = py_str i"
    and val: "case map_of cd (str_nat c') of None \<Rightarrow> False | Some c \<Rightarrow> str_nat c' = str_nat c"
    by auto
  from key obtain i where i: "str_int py k = Some i" "k = py_str i"
    by (cases "str_int py k") auto
  from val obtain c'' where c'': "map_of cd (str_nat c') = Some c''" "str_nat c' = str_nat c''"
    by (cases "map_of cd (str_nat c')") auto
  then have cd: "map_of cd (str_nat c') = Some c'"
    by (auto dest: str_nat_inj)
  have "str_nat c' \<notin> snd ` set pre"
    using first by auto
  then have "char_to_int py om c = Inr i"
    unfolding char_to_int_single [OF lower] split kv_eq
    by (simp add: char_to_int_items_first i(1))
  moreover have "map_of om (py_str i) = Some (str_nat c')"
    using dist mem i(2) by simp
  ultimately show ?thesis
    using cd that by blast
qed

lemma round_trip_label:
  assumes cons: "dicts_consistent py om cd"
  shows "\<forall>c\<in>set label. \<exists>c'. str_lower py [c] = [c'] \<and> str_nat c' \<in> snd ` set om \<Longrightarrow>
    \<exists>enc. mapM (char_to_int py om) label = Inr enc
      \<and> translate_values om enc = Inr (map (\<lambda>c. str_nat (hd (str_lower py [c]))) label)"
proof (induction label)
  case Nil
  then show ?case by (simp add: translate_values_def)
next
  case (Cons c label)
  then obtain enc where enc: "mapM (char_to_int py om) label = Inr enc"
    "translate_values om enc = Inr (map (\<lambda>c. str_nat (hd (str_lower py [c]))) label)"
    by auto
  from Cons.prems obtain c' where c': "str_lower py [c] = [c']" "str_nat c' \<in> snd ` set om"
    by auto
  from round_trip_char [OF cons c'] obtain i where i: "char_to_int py om c = Inr i"
    "map_of om (py_str i) = Some (str_nat c')"
    by blast
  show ?case
    using enc i c'(1) by (intro exI [of _ "i # enc"]) (simp add: translate_values_def)
qed

lemma decode_ordinals:
  assumes cons: "dicts_consistent py om cd"
  shows "\<forall>c\<in>set label. \<exists>c'. str_lower py [c] = [c'] \<and> c' \<noteq> 1 \<and> str_nat c' \<in> snd ` set om \<Longrightarrow>
    mapM (int_to_char cd) (map (\<lambda>c. PyStr (str_nat (hd (str_lower py [c])))) label)
      = Inr (map (\<lambda>c. hd (str_lower py [c])) label)"
proof (induction label)
  case Nil
  then show ?case by simp
next
  case (Cons c label)
  from Cons.prems obtain c' where c': "str_lower py [c] = [c']" "c' \<noteq> 1"
    "str_nat c' \<in> snd ` set om"
    by auto
  from round_trip_char [OF cons c'(1,3)] have cd: "map_of cd (str_nat c') = Some c'"
    by blast
  have "str_nat c' \<noteq> lit ''1''"
    unfolding str_nat_one [symmetric] using c'(2) by (blast dest: str_nat_inj)
  then have "int_to_char cd (PyStr (str_nat c')) = Inr c'"
    using cd by (simp add: getitem_def)
  with Cons c'(1) show ?case by simp
qed

section \<open>The codec\<close>

text \<open>
  Claim C7, amended. Let the character lower-case to a string of one character. Then
  \<^verbatim>\<open>char_to_int\<close> raises the \<^verbatim>\<open>KeyError\<close> for a missing character exactly when no
  entry of \<^verbatim>\<open>ord_map\<close> has as value the decimal string of the ordinal of that
  lower-case character; otherwise it returns \<^verbatim>\<open>int\<close> of the key of the first entry
  with that value (\<^verbatim>\<open>ValueError\<close> when the key is no integer literal). When the
  character lower-cases to a string of another length, \<^verbatim>\<open>char_to_int\<close> raises
  \<^verbatim>\<open>TypeError\<close>.
\<close>

theorem char_to_int_spec:
  "(\<forall>c'. str_lower py [c] = [c'] \<longrightarrow>
      ((char_to_int py om c = Inl KeyError_missing_character) = (str_nat c' \<notin> snd ` set om))
      \<and> (\<forall>pre k post. om = pre @ (k, str_nat c') # post \<and> str_nat c' \<notin> snd ` set pre \<longrightarrow>
            char_to_int py om c
              = (case str_int py k of None \<Rightarrow> Inl ValueError | Some i \<Rightarrow> Inr i)))
   \<and> ((\<forall>c'. str_lower py [c] \<noteq> [c']) \<longrightarrow> char_to_int py om c = Inl TypeError)"
  by (auto simp: char_to_int_single char_to_int_items_KeyError_iff char_to_int_items_first
      char_to_int_not_single)

theorem char_to_int_spec_witness:
  "str_lower example_builtins [66] = [98]
   \<and> str_nat 98 = lit ''98''
   \<and> str_int example_builtins (lit ''2'') = Some 2
   \<and> char_to_int example_builtins [(lit ''0'', lit ''97''), (lit ''2'', lit ''98'')] 66 = Inr 2
   \<and> str_lower example_builtins [67] = [99]
   \<and> str_nat 99 = lit ''99''
   \<and> char_to_int example_builtins [(lit ''0'', lit ''97''), (lit ''2'', lit ''98'')] 67
        = Inl KeyError_missing_character"
proof -
  let ?om = "[(lit ''0'', lit ''97''), (lit ''2'', lit ''98'')]"
  have lB: "str_lower example_builtins [66] = [98]" by code_simp
  have lC: "str_lower example_builtins [67] = [99]" by code_simp
  have s98: "str_nat 98 = lit ''98''" by code_simp
  have s99: "str_nat 99 = lit ''99''" by code_simp
  have i2: "str_int example_builtins (lit ''2'') = Some 2" by code_simp
  have split: "?om = [(lit ''0'', lit ''97'')] @ (lit ''2'', str_nat 98) # []
      \<and> str_nat 98 \<notin> snd ` set [(lit ''0'', lit ''97'')]"
    by (simp add: s98)
  have miss: "str_nat 99 \<notin> snd ` set ?om"
    by (simp add: s99)
  note spec = char_to_int_spec [of example_builtins _ ?om]
  from spec [of 66] lB split i2 have "char_to_int example_builtins ?om 66 = Inr 2"
    by (metis option.simps(5))
  moreover from spec [of 67] lC miss
  have "char_to_int example_builtins ?om 67 = Inl KeyError_missing_character"
    by blast
  ultimately show ?thesis
    using lB lC s98 s99 i2 by simp
qed

text \<open>
  For every character the claim fails: the capital I with dot above lower-cases to two
  characters, of which \<^verbatim>\<open>ord\<close> raises \<^verbatim>\<open>TypeError\<close>, not the \<^verbatim>\<open>KeyError\<close> of a
  missing character, with or without an entry for \<^verbatim>\<open>i\<close> in \<^verbatim>\<open>ord_map\<close>.
\<close>

theorem char_to_int_counterexample:
  "str_lower example_builtins [0x130] = [0x69, 0x307]
   \<and> char_to_int example_builtins [(lit ''0'', lit ''105'')] 0x130 = Inl TypeError"
proof -
  have l: "str_lower example_builtins [0x130] = [0x69, 0x307]" by code_simp
  have c: "char_to_int example_builtins [(lit ''0'', lit ''105'')] 0x130 = Inl TypeError"
    by code_simp
  from l c show ?thesis by simp
qed

text \<open>
  Claim C9, amended. Let the label be lower-cased character by character (the lower
  case of the label is the lower case of its characters, joined), each character to one
  character that is its own lower case. Then \<^verbatim>\<open>encode_labels\<close> gives the same result,
  index sequence and length, on the label and on the lower-cased label.
\<close>

theorem encode_labels_case_insensitive:
  assumes whole: "str_lower py label = concat (map (\<lambda>c. str_lower py [c]) label)"
    and single: "\<forall>c\<in>set label. \<exists>c'. str_lower py [c] = [c'] \<and> str_lower py [c'] = [c']"
  shows "encode_labels py om [str_lower py label] = encode_labels py om [label]"
proof -
  let ?lc = "\<lambda>c. hd (str_lower py [c])"
  have one: "str_lower py [c] = [?lc c] \<and> str_lower py [?lc c] = [?lc c]" if "c \<in> set label" for c
    using single that by force
  have "concat (map (\<lambda>c. str_lower py [c]) label) = concat (map (\<lambda>c. [?lc c]) label)"
    using one by (intro arg_cong [where f = concat] map_cong) auto
  then have low: "str_lower py label = map ?lc label"
    using whole by simp
  have same: "char_to_int py om (?lc c) = char_to_int py om c" if "c \<in> set label" for c
  proof -
    from one [OF that] have a: "str_lower py [c] = [?lc c]"
      and b: "str_lower py [?lc c] = [?lc c]"
      by blast+
    show ?thesis
      by (simp only: char_to_int_single [OF a] char_to_int_single [OF b])
  qed
  have "mapM (char_to_int py om) (map ?lc label) = mapM (char_to_int py om) label"
    unfolding mapM_map by (rule mapM_cong) (rule same)
  then show ?thesis
    by (simp add: encode_labels_def low split: sum.splits)
qed

theorem encode_labels_case_insensitive_witness:
  "str_lower example_builtins (lit ''aB'') = lit ''ab''
   \<and> encode_labels example_builtins [(lit ''0'', lit ''97''), (lit ''2'', lit ''98'')] [lit ''aB'']
        = Inr ([[0, 2]], [2])
   \<and> encode_labels example_builtins [(lit ''0'', lit ''97''), (lit ''2'', lit ''98'')] [lit ''ab'']
        = Inr ([[0, 2]], [2])"
proof -
  let ?om = "[(lit ''0'', lit ''97''), (lit ''2'', lit ''98'')]"
  have label: "lit ''aB'' = [97, 66]" by (simp add: lit_def)
  have l: "str_lower example_builtins (lit ''aB'') = lit ''ab''" by code_simp
  have la: "str_lower example_builtins [97] = [97]" by code_simp
  have lB: "str_lower example_builtins [66] = [98]" by code_simp
  have lb: "str_lower example_builtins [98] = [98]" by code_simp
  have whole: "str_lower example_builtins (lit ''aB'')
      = concat (map (\<lambda>c. str_lower example_builtins [c]) (lit ''aB''))"
    by code_simp
  have single: "\<forall>c\<in>set (lit ''aB''). \<exists>c'. str_lower example_builtins [c] = [c']
      \<and> str_lower example_builtins [c'] = [c']"
    using la lB lb by (simp add: label)
  have e: "encode_labels example_builtins ?om [lit ''aB''] = Inr ([[0, 2]], [2])"
    by code_simp
  from encode_labels_case_insensitive [OF whole single, of ?om] l e
  have "encode_labels example_builtins ?om [lit ''ab''] = Inr ([[0, 2]], [2])"
    by simp
  with l e show ?thesis by simp
qed

text \<open>
  For every label the claim fails: \<^verbatim>\<open>str.lower\<close> turns a capital sigma at the end of
  a word into the final sigma, while \<^verbatim>\<open>char_to_int\<close> lower-cases the capital sigma on
  its own, to the other sigma. With all three letters in \<^verbatim>\<open>ord_map\<close>, the label
  capital alpha, capital sigma is encoded as \<open>[0, 2]\<close> and its lower case as \<open>[0, 3]\<close>.
\<close>

theorem encode_labels_counterexample:
  "encode_labels example_builtins
      [(lit ''0'', lit ''945''), (lit ''2'', lit ''963''), (lit ''3'', lit ''962'')]
      [[0x391, 0x3A3]] = Inr ([[0, 2]], [2])
   \<and> str_lower example_builtins [0x391, 0x3A3] = [0x3B1, 0x3C2]
   \<and> encode_labels example_builtins
      [(lit ''0'', lit ''945''), (lit ''2'', lit ''963''), (lit ''3'', lit ''962'')]
      [[0x3B1, 0x3C2]] = Inr ([[0, 3]], [2])"
proof -
  have a: "encode_labels example_builtins
      [(lit ''0'', lit ''945''), (lit ''2'', lit ''963''), (lit ''3'', lit ''962'')]
      [[0x391, 0x3A3]] = Inr ([[0, 2]], [2])"
    by code_simp
  have l: "str_lower example_builtins [0x391, 0x3A3] = [0x3B1, 0x3C2]"
    by code_simp
  have b: "encode_labels example_builtins
      [(lit ''0'', lit ''945''), (lit ''2'', lit ''963''), (lit ''3'', lit ''962'')]
      [[0x3B1, 0x3C2]] = Inr ([[0, 3]], [2])"
    by code_simp
  from a l b show ?thesis by simp
qed

text \<open>
  Claim C6. Whatever the dictionary, \<^verbatim>\<open>int_to_char\<close> maps the integer 1 to the NUL
  marker, and the marker adds nothing to a decoded string: a sequence decodes to the same
  string (or raises the same exception) with and without an element 1.
\<close>

theorem sentinel_index:
  "int_to_char cd (PyInt 1) = Inr NUL
   \<and> decode_numbers cd (xs @ PyInt 1 # ys) = decode_numbers cd (xs @ ys)
   \<and> decode_indices cd (idxs @ 1 # idxs') = decode_indices cd (idxs @ idxs')"
  by (auto simp: decode_indices_def decode_numbers_def mapM_append join_row_def
      split: sum.splits)

text \<open>
  Claim C10. \<^verbatim>\<open>int_to_char\<close> treats the string \<^verbatim>\<open>'1'\<close> as it treats the integer 1: the
  NUL marker, whatever the dictionary. The cells that \<^verbatim>\<open>np.ones\<close> puts into a grid of
  strings are this string, and such a cell adds nothing to the decoded row.
\<close>

theorem sentinel_string:
  "int_to_char cd (PyStr (lit ''1'')) = int_to_char cd (PyInt 1)
   \<and> int_to_char cd (PyStr (lit ''1'')) = Inr NUL
   \<and> one_of_dtype (np_array (v # vs)) = PyStr (lit ''1'')
   \<and> decode_numbers cd (xs @ PyStr (lit ''1'') # ys) = decode_numbers cd (xs @ ys)"
  by (auto simp: decode_numbers_def mapM_append join_row_def one_of_dtype_def np_array_def
      split: sum.splits)

text \<open>
  Claim C1, amended. Let the dictionaries be consistent (\<open>dicts_consistent\<close>), let
  every character of the label lower-case to one character, other than NUL and U+0001,
  whose ordinal in decimal is a value of \<^verbatim>\<open>ord_map\<close>, and let the label be lower-cased
  character by character. Then \<^verbatim>\<open>encode_labels\<close> succeeds on the label, and
  \<^verbatim>\<open>sparse_tensor_to_str\<close> on the one row of the encoded label returns the lower-cased
  label.
\<close>

theorem decode_encode_round_trip:
  assumes cons: "dicts_consistent py om cd"
    and chars: "\<forall>c\<in>set label. \<exists>c'. str_lower py [c] = [c'] \<and> c' \<noteq> NUL \<and> c' \<noteq> 1
                  \<and> str_nat c' \<in> snd ` set om"
    and whole: "str_lower py label = concat (map (\<lambda>c. str_lower py [c]) label)"
  shows "\<exists>enc. encode_labels py om [label] = Inr ([enc], [int (length label)])
           \<and> sparse_tensor_to_str om cd
                \<lparr>indices = map (\<lambda>j. (0, int j)) [0..<length enc], values_arr = enc,
                  dense_shape = (1, int (length enc))\<rparr>
               = Inr [str_lower py label]"
proof -
  let ?lc = "\<lambda>c. hd (str_lower py [c])"
  let ?n = "length label"
  from chars have c1: "\<forall>c\<in>set label. \<exists>c'. str_lower py [c] = [c'] \<and> str_nat c' \<in> snd ` set om"
    and c2: "\<forall>c\<in>set label. \<exists>c'. str_lower py [c] = [c'] \<and> c' \<noteq> 1 \<and> str_nat c' \<in> snd ` set om"
    by blast+
  from round_trip_label [OF cons c1] obtain enc
    where enc: "mapM (char_to_int py om) label = Inr enc"
      and tr: "translate_values om enc = Inr (map (\<lambda>c. str_nat (?lc c)) label)"
    by blast
  have n: "length enc = ?n"
    by (rule mapM_length [OF enc])
  let ?st = "\<lparr>indices = map (\<lambda>j. (0, int j)) [0..<length enc], values_arr = enc,
               dense_shape = (1, int (length enc))\<rparr>"
  let ?vs = "map (\<lambda>c. PyStr (str_nat (?lc c))) label"
  have vs: "np_array (map (\<lambda>c. str_nat (?lc c)) label) = ?vs"
    by (simp add: np_array_def np_str_str_nat)
  have "number_lists om ?st
      = fill (1, int ?n) [replicate ?n (one_of_dtype ?vs)] (map (\<lambda>j. (0, int j)) [0..<?n]) ?vs"
    by (simp add: number_lists_def tr vs np_ones_def n Let_def)
  also have "\<dots> = Inr [?vs]"
    by (rule fill_one_row) simp_all
  finally have grid: "number_lists om ?st = Inr [?vs]" .
  have "str_lists om cd ?st = Inr [map ?lc label]"
    by (simp add: str_lists_def grid decode_ordinals [OF cons c2])
  moreover have "join_row (map ?lc label) = map ?lc label"
  proof -
    have "?lc c \<noteq> NUL" if "c \<in> set label" for c
      using chars that by force
    then show ?thesis
      by (simp add: join_row_def)
  qed
  moreover have "str_lower py label = map ?lc label"
  proof -
    have "str_lower py [c] = [?lc c]" if "c \<in> set label" for c
      using chars that by force
    then have "concat (map (\<lambda>c. str_lower py [c]) label) = concat (map (\<lambda>c. [?lc c]) label)"
      by (intro arg_cong [where f = concat] map_cong) auto
    with whole show ?thesis by simp
  qed
  ultimately have "sparse_tensor_to_str om cd ?st = Inr [str_lower py label]"
    by (simp add: sparse_tensor_to_str_def)
  moreover have "encode_labels py om [label] = Inr ([enc], [int ?n])"
    by (simp add: encode_labels_def enc)
  ultimately show ?thesis by blast
qed

theorem decode_encode_round_trip_witness:
  "dicts_consistent example_builtins [(lit ''0'', lit ''97''), (lit ''2'', lit ''98'')]
      [(lit ''97'', 97), (lit ''98'', 98)]
   \<and> lit ''aB'' = [97, 66]
   \<and> str_lower example_builtins [97] = [97]
   \<and> str_lower example_builtins [66] = [98]
   \<and> str_nat 97 = lit ''97''
   \<and> str_nat 98 = lit ''98''
   \<and> str_lower example_builtins (lit ''aB'') = lit ''ab''
   \<and> encode_labels example_builtins [(lit ''0'', lit ''97''), (lit ''2'', lit ''98'')] [lit ''aB'']
        = Inr ([[0, 2]], [2])
   \<and> sparse_tensor_to_str [(lit ''0'', lit ''97''), (lit ''2'', lit ''98'')]
        [(lit ''97'', 97), (lit ''98'', 98)]
        \<lparr>indices = [(0, 0), (0, 1)], values_arr = [0, 2], dense_shape = (1, 2)\<rparr>
        = Inr [lit ''ab'']"
proof -
  let ?om = "[(lit ''0'', lit ''97''), (lit ''2'', lit ''98'')]"
  let ?cd = "[(lit ''97'', 97 :: nat), (lit ''98'', 98)]"
  have cons: "dicts_consistent example_builtins ?om ?cd" by code_simp
  have label: "lit ''aB'' = [97, 66]" by (simp add: lit_def)
  have la: "str_lower example_builtins [97] = [97]" by code_simp
  have lB: "str_lower example_builtins [66] = [98]" by code_simp
  have s97: "str_nat 97 = lit ''97''" by code_simp
  have s98: "str_nat 98 = lit ''98''" by code_simp
  have l: "str_lower example_builtins (lit ''aB'') = lit ''ab''" by code_simp
  have whole: "str_lower example_builtins (lit ''aB'')
      = concat (map (\<lambda>c. str_lower example_builtins [c]) (lit ''aB''))"
    by code_simp
  have chars: "\<forall>c\<in>set (lit ''aB''). \<exists>c'. str_lower example_builtins [c] = [c'] \<and> c' \<noteq> NUL
      \<and> c' \<noteq> 1 \<and> str_nat c' \<in> snd ` set ?om"
    using la lB s97 s98 by (simp add: label NUL_def)
  have e: "encode_labels example_builtins ?om [lit ''aB''] = Inr ([[0, 2]], [2])"
    by code_simp
  have ixs: "map (\<lambda>j. (0 :: int, int j)) [0..<length [0 :: int, 2]] = [(0, 0), (0, 1)]"
    by code_simp
  from decode_encode_round_trip [OF cons chars whole] obtain enc
    where enc: "encode_labels example_builtins ?om [lit ''aB''] = Inr ([enc], [int (length (lit ''aB''))])"
      and dec: "sparse_tensor_to_str ?om ?cd
          \<lparr>indices = map (\<lambda>j. (0, int j)) [0..<length enc], values_arr = enc,
            dense_shape = (1, int (length enc))\<rparr> = Inr [str_lower example_builtins (lit ''aB'')]"
    by blast
  from enc e have "enc = [0, 2]" by simp
  with dec l ixs have "sparse_tensor_to_str ?om ?cd
      \<lparr>indices = [(0, 0), (0, 1)], values_arr = [0, 2], dense_shape = (1, 2)\<rparr> = Inr [lit ''ab'']"
    by simp
  with cons label la lB s97 s98 l e show ?thesis by simp
qed

text \<open>
  Each condition is needed; the claim as the specification words it fails without it.
  In turn: the label of the character NUL, which the decoder uses as its marker of an
  empty cell, decodes to the empty string; so does the label of the character U+0001,
  whose ordinal \<^verbatim>\<open>'1'\<close> is the fill value of the dense array; the label capital alpha,
  capital sigma decodes to alpha, sigma, while its lower case ends in the final sigma;
  with \<^verbatim>\<open>char_dict\<close> keyed by the index instead of the ordinal, the decoder raises
  \<^verbatim>\<open>KeyError\<close>; so it does with the key \<^verbatim>\<open>'00'\<close> in \<^verbatim>\<open>ord_map\<close>, which is encoded
  as 0 and looked up as \<^verbatim>\<open>'0'\<close>; and the label of the capital I with dot above, whose
  lower case is two characters, both in \<^verbatim>\<open>ord_map\<close>, is not encoded at all:
  \<^verbatim>\<open>TypeError\<close>.
\<close>

theorem decode_encode_counterexample:
  "str_lower example_builtins [0] = [0]
   \<and> encode_labels example_builtins [(lit ''0'', lit ''0'')] [[0]] = Inr ([[0]], [1])
   \<and> sparse_tensor_to_str [(lit ''0'', lit ''0'')] [(lit ''0'', 0)]
        \<lparr>indices = [(0, 0)], values_arr = [0], dense_shape = (1, 1)\<rparr> = Inr [[]]
   \<and> str_lower example_builtins [1] = [1]
   \<and> encode_labels example_builtins [(lit ''0'', lit ''1'')] [[1]] = Inr ([[0]], [1])
   \<and> sparse_tensor_to_str [(lit ''0'', lit ''1'')] [(lit ''1'', 1)]
        \<lparr>indices = [(0, 0)], values_arr = [0], dense_shape = (1, 1)\<rparr> = Inr [[]]
   \<and> str_lower example_builtins [0x391, 0x3A3] = [0x3B1, 0x3C2]
   \<and> encode_labels example_builtins
        [(lit ''0'', lit ''945''), (lit ''2'', lit ''963''), (lit ''3'', lit ''962'')]
        [[0x391, 0x3A3]] = Inr ([[0, 2]], [2])
   \<and> sparse_tensor_to_str
        [(lit ''0'', lit ''945''), (lit ''2'', lit ''963''), (lit ''3'', lit ''962'')]
        [(lit ''945'', 0x3B1), (lit ''963'', 0x3C3), (lit ''962'', 0x3C2)]
        \<lparr>indices = [(0, 0), (0, 1)], values_arr = [0, 2], dense_shape = (1, 2)\<rparr>
        = Inr [[0x3B1, 0x3C3]]
   \<and> str_lower example_builtins (lit ''a'') = lit ''a''
   \<and> encode_labels example_builtins [(lit ''0'', lit ''97'')] [lit ''a''] = Inr ([[0]], [1])
   \<and> sparse_tensor_to_str [(lit ''0'', lit ''97'')] [(lit ''0'', 97)]
        \<lparr>indices = [(0, 0)], values_arr = [0], dense_shape = (1, 1)\<rparr> = Inl KeyError_lookup
   \<and> encode_labels example_builtins [(lit ''00'', lit ''97'')] [lit ''a''] = Inr ([[0]], [1])
   \<and> sparse_tensor_to_str [(lit ''00'', lit ''97'')] [(lit ''97'', 97)]
        \<lparr>indices = [(0, 0)], values_arr = [0], dense_shape = (1, 1)\<rparr> = Inl KeyError_lookup
   \<and> str_lower example_builtins [0x130] = [0x69, 0x307]
   \<and> encode_labels example_builtins [(lit ''0'', lit ''105''), (lit ''2'', lit ''775'')] [[0x130]]
        = Inl TypeError"
proof -
  have a1: "str_lower example_builtins [0] = [0]" by code_simp
  have a2: "encode_labels example_builtins [(lit ''0'', lit ''0'')] [[0]] = Inr ([[0]], [1])"
    by code_simp
  have a3: "sparse_tensor_to_str [(lit ''0'', lit ''0'')] [(lit ''0'', 0)]
        \<lparr>indices = [(0, 0)], values_arr = [0], dense_shape = (1, 1)\<rparr> = Inr [[]]"
    by code_simp
  have b1: "str_lower example_builtins [1] = [1]" by code_simp
  have b2: "encode_labels example_builtins [(lit ''0'', lit ''1'')] [[1]] = Inr ([[0]], [1])"
    by code_simp
  have b3: "sparse_tensor_to_str [(lit ''0'', lit ''1'')] [(lit ''1'', 1)]
        \<lparr>indices = [(0, 0)], values_arr = [0], dense_shape = (1, 1)\<rparr> = Inr [[]]"
    by code_simp
  have c1: "str_lower example_builtins [0x391, 0x3A3] = [0x3B1, 0x3C2]" by code_simp
  have c2: "encode_labels example_builtins
        [(lit ''0'', lit ''945''), (lit ''2'', lit ''963''), (lit ''3'', lit ''962'')]
        [[0x391, 0x3A3]] = Inr ([[0, 2]], [2])"
    by code_simp
  have c3: "sparse_tensor_to_str
        [(lit ''0'', lit ''945''), (lit ''2'', lit ''963''), (lit ''3'', lit ''962'')]
        [(lit ''945'', 0x3B1), (lit ''963'', 0x3C3), (lit ''962'', 0x3C2)]
        \<lparr>indices = [(0, 0), (0, 1)], values_arr = [0, 2], dense_shape = (1, 2)\<rparr>
        = Inr [[0x3B1, 0x3C3]]"
    by code_simp
  have d1: "str_lower example_builtins (lit ''a'') = lit ''a''" by code_simp
  have d2: "encode_labels example_builtins [(lit ''0'', lit ''97'')] [lit ''a''] = Inr ([[0]], [1])"
    by code_simp
  have d3: "sparse_tensor_to_str [(lit ''0'', lit ''97'')] [(lit ''0'', 97)]
        \<lparr>indices = [(0, 0)], values_arr = [0], dense_shape = (1, 1)\<rparr> = Inl KeyError_lookup"
    by code_simp
  have e2: "encode_labels example_builtins [(lit ''00'', lit ''97'')] [lit ''a''] = Inr ([[0]], [1])"
    by code_simp
  have e3: "sparse_tensor_to_str [(lit ''00'', lit ''97'')] [(lit ''97'', 97)]
        \<lparr>indices = [(0, 0)], values_arr = [0], dense_shape = (1, 1)\<rparr> = Inl KeyError_lookup"
    by code_simp
  have f1: "str_lower example_builtins [0x130] = [0x69, 0x307]" by code_simp
  have f2: "encode_labels example_builtins [(lit ''0'', lit ''105''), (lit ''2'', lit ''775'')]
        [[0x130]] = Inl TypeError"
    by code_simp
  from a1 a2 a3 b1 b2 b3 c1 c2 c3 d1 d2 d3 e2 e3 f1 f2 show ?thesis
    by (intro conjI)
qed

section \<open>The sparse decoder\<close>

text \<open>
  Claim C3. Whenever \<^verbatim>\<open>sparse_tensor_to_str\<close> returns, the two dimensions of
  \<^verbatim>\<open>dense_shape\<close> are not negative, the list returned has as many strings as
  \<^verbatim>\<open>dense_shape\<close> has rows, and no string is longer than the number of columns.
\<close>

theorem sparse_tensor_to_str_shape:
  assumes "sparse_tensor_to_str om cd st = Inr res"
  shows "0 \<le> fst (dense_shape st) \<and> 0 \<le> snd (dense_shape st)
    \<and> int (length res) = fst (dense_shape st)
    \<and> (\<forall>s\<in>set res. int (length s) \<le> snd (dense_shape st))"
proof -
  from assms obtain sl where sl: "str_lists om cd st = Inr sl" and res: "res = map join_row sl"
    by (rule sparse_tensor_to_str_Inr)
  from sl obtain g where g: "number_lists om st = Inr g"
    by (rule str_lists_Inr)
  note nonneg = number_lists_shape(1,2) [OF g]
  have shape: "map length sl = replicate (nat (fst (dense_shape st))) (nat (snd (dense_shape st)))"
    by (rule str_lists_shape [OF sl])
  then have "length sl = nat (fst (dense_shape st))"
    by (metis length_map length_replicate)
  then have len: "int (length res) = fst (dense_shape st)"
    using nonneg res by simp
  have "\<forall>s\<in>set res. int (length s) \<le> snd (dense_shape st)"
  proof
    fix s assume "s \<in> set res"
    then obtain row where row: "row \<in> set sl" and s: "s = join_row row"
      using res by auto
    from row have "length row \<in> set (map length sl)" by simp
    then have "length row = nat (snd (dense_shape st))"
      unfolding shape by simp
    moreover have "length s \<le> length row"
      unfolding s join_row_def by (rule length_filter_le)
    ultimately show "int (length s) \<le> snd (dense_shape st)"
      using nonneg by simp
  qed
  with nonneg len show ?thesis by simp
qed

theorem sparse_tensor_to_str_shape_witness:
  "sparse_tensor_to_str [(lit ''0'', lit ''97''), (lit ''2'', lit ''98'')] [(lit ''97'', 97), (lit ''98'', 98)]
      \<lparr>indices = [(0, 0), (0, 1)], values_arr = [0, 2], dense_shape = (1, 2)\<rparr> = Inr [lit ''ab'']
   \<and> int (length [lit ''ab'']) = fst (dense_shape
        \<lparr>indices = [(0, 0), (0, 1)], values_arr = [0, 2], dense_shape = (1, 2)\<rparr>)
   \<and> int (length (lit ''ab'')) \<le> snd (dense_shape
        \<lparr>indices = [(0, 0), (0, 1)], values_arr = [0, 2], dense_shape = (1, 2)\<rparr>)"
proof -
  have e: "sparse_tensor_to_str [(lit ''0'', lit ''97''), (lit ''2'', lit ''98'')]
      [(lit ''97'', 97), (lit ''98'', 98)]
      \<lparr>indices = [(0, 0), (0, 1)], values_arr = [0, 2], dense_shape = (1, 2)\<rparr> = Inr [lit ''ab'']"
    by code_simp
  from sparse_tensor_to_str_shape [OF e] e show ?thesis
    by simp
qed

text \<open>
  Claim C8, amended. Let \<^verbatim>\<open>sparse_tensor_to_str\<close> return, and let \<open>r\<close> be a row of
  \<^verbatim>\<open>dense_shape\<close>. If no entry of \<^verbatim>\<open>indices\<close> has the row subscript \<open>r\<close> or the
  negative subscript of the same row, \<open>r\<close> minus the number of rows, then the string
  returned for row \<open>r\<close> is empty.
\<close>

theorem empty_row:
  assumes res: "sparse_tensor_to_str om cd st = Inr res"
    and r: "0 \<le> r" "r < fst (dense_shape st)"
    and no_entry: "\<forall>ix\<in>set (indices st). fst ix \<noteq> r \<and> fst ix \<noteq> r - fst (dense_shape st)"
  shows "res ! nat r = []"
proof -
  let ?rows = "fst (dense_shape st)" and ?cols = "snd (dense_shape st)"
  from res obtain sl where sl: "str_lists om cd st = Inr sl" and res_eq: "res = map join_row sl"
    by (rule sparse_tensor_to_str_Inr)
  from sl obtain g where g: "number_lists om st = Inr g"
    and m: "mapM (\<lambda>number_list. mapM (int_to_char cd) number_list) g = Inr sl"
    by (rule str_lists_Inr)
  from g obtain ords where
    f: "fill (dense_shape st)
          (replicate (nat ?rows) (replicate (nat ?cols) (one_of_dtype (np_array ords))))
          (indices st) (np_array ords) = Inr g"
    by (rule number_lists_Inr)
  have lt: "nat r < nat ?rows"
    using r by simp
  have "\<forall>ix\<in>set (indices st). np_index ?rows (fst ix) \<noteq> Some (nat r)"
    using no_entry r by (simp add: np_index_Some_iff)
  from fill_row_untouched [OF f this] lt
  have row: "g ! nat r = replicate (nat ?cols) (one_of_dtype (np_array ords))"
    by simp
  have "length g = nat ?rows"
    using number_lists_shape(3) [OF g] by (metis length_map length_replicate)
  with lt have lg: "nat r < length g" by simp
  from mapM_nth [OF m lg] row
  have "mapM (int_to_char cd) (replicate (nat ?cols) (one_of_dtype (np_array ords)))
          = Inr (sl ! nat r)"
    by simp
  then have "sl ! nat r = replicate (nat ?cols) NUL"
    by (simp add: mapM_replicate [of "int_to_char cd", OF int_to_char_one])
  moreover have "nat r < length sl"
    using mapM_length [OF m] lg by simp
  ultimately show ?thesis
    unfolding res_eq by (simp add: join_row_replicate_NUL)
qed

theorem empty_row_witness:
  "sparse_tensor_to_str [(lit ''0'', lit ''97'')] [(lit ''97'', 97)]
      \<lparr>indices = [(0, 0)], values_arr = [0], dense_shape = (2, 1)\<rparr> = Inr [lit ''a'', []]
   \<and> (0 :: int) \<le> 1
   \<and> 1 < fst (dense_shape \<lparr>indices = [(0, 0)], values_arr = [0], dense_shape = (2, 1)\<rparr>)
   \<and> indices \<lparr>indices = [(0, 0)], values_arr = [0], dense_shape = (2, 1)\<rparr> = [(0, 0)]
   \<and> fst (0 :: int, 0 :: int) \<noteq> 1
   \<and> fst (0 :: int, 0 :: int) \<noteq> 1 - fst (dense_shape
        \<lparr>indices = [(0, 0)], values_arr = [0], dense_shape = (2, 1)\<rparr>)
   \<and> [lit ''a'', []] ! nat 1 = []"
proof -
  have e: "sparse_tensor_to_str [(lit ''0'', lit ''97'')] [(lit ''97'', 97)]
      \<lparr>indices = [(0, 0)], values_arr = [0], dense_shape = (2, 1)\<rparr> = Inr [lit ''a'', []]"
    by code_simp
  have h1: "(0 :: int) \<le> 1" by simp
  have h2: "1 < fst (dense_shape \<lparr>indices = [(0, 0)], values_arr = [0], dense_shape = (2, 1)\<rparr>)"
    by simp
  have h3: "\<forall>ix\<in>set (indices \<lparr>indices = [(0, 0)], values_arr = [0], dense_shape = (2, 1)\<rparr>).
         fst ix \<noteq> 1
         \<and> fst ix \<noteq> 1 - fst (dense_shape
              \<lparr>indices = [(0, 0)], values_arr = [0], dense_shape = (2, 1)\<rparr>)"
    by simp
  from empty_row [OF e h1 h2 h3] e show ?thesis
    by simp
qed

text \<open>
  Without the negative subscript the claim fails: in an array of one row, the entry at
  \<open>(-1, 0)\<close> writes into row 0, which no entry names as row 0.
\<close>

theorem empty_row_counterexample:
  "sparse_tensor_to_str [(lit ''0'', lit ''97'')] [(lit ''97'', 97)]
      \<lparr>indices = [(- 1, 0)], values_arr = [0], dense_shape = (1, 1)\<rparr> = Inr [lit ''a'']
   \<and> (0 :: int) \<le> 0
   \<and> 0 < fst (dense_shape \<lparr>indices = [(- 1, 0)], values_arr = [0], dense_shape = (1, 1)\<rparr>)
   \<and> fst (indices \<lparr>indices = [(- 1, 0)], values_arr = [0], dense_shape = (1, 1)\<rparr> ! 0) \<noteq> 0
   \<and> length (indices \<lparr>indices = [(- 1, 0)], values_arr = [0], dense_shape = (1, 1)\<rparr>) = 1
   \<and> [lit ''a''] ! nat 0 \<noteq> []"
proof -
  have e: "sparse_tensor_to_str [(lit ''0'', lit ''97'')] [(lit ''97'', 97)]
      \<lparr>indices = [(- 1, 0)], values_arr = [0], dense_shape = (1, 1)\<rparr> = Inr [lit ''a'']"
    by code_simp
  show ?thesis
    using e by simp
qed

text \<open>
  Claim C4, amended. Let the cells be decoded (\<open>str_lists\<close> returns), and let entry \<open>j\<close> of
  \<^verbatim>\<open>indices\<close> be the last one, in the order of the input, that addresses the cell
  \<open>(r, c)\<close>: no later entry addresses that cell. Then the character decoded at
  \<open>(r, c)\<close> is the one of entry \<open>j\<close>: \<^verbatim>\<open>int_to_char\<close> of the ordinal that
  \<^verbatim>\<open>ord_map\<close> gives for \<^verbatim>\<open>values[j]\<close>. Earlier entries for the same cell leave no
  trace. The strings returned are the rows of these characters, joined.
\<close>

theorem last_write_wins:
  assumes sl: "str_lists om cd st = Inr sl"
    and j: "j < length (indices st)"
    and at: "cell (dense_shape st) (indices st ! j) = Some (r, c)"
    and last: "\<forall>k. j < k \<and> k < length (indices st)
                 \<longrightarrow> cell (dense_shape st) (indices st ! k) \<noteq> Some (r, c)"
  shows "\<exists>v. map_of om (py_str (values_arr st ! j)) = Some v
           \<and> int_to_char cd (PyStr (np_str v)) = Inr (sl ! r ! c)
           \<and> sparse_tensor_to_str om cd st = Inr (map join_row sl)"
proof -
  let ?rows = "fst (dense_shape st)" and ?cols = "snd (dense_shape st)"
  from sl obtain g where g: "number_lists om st = Inr g"
    and m: "mapM (\<lambda>number_list. mapM (int_to_char cd) number_list) g = Inr sl"
    by (rule str_lists_Inr)
  from g obtain ords where t: "translate_values om (values_arr st) = Inr ords"
    and f: "fill (dense_shape st)
          (replicate (nat ?rows) (replicate (nat ?cols) (one_of_dtype (np_array ords))))
          (indices st) (np_array ords) = Inr g"
    by (rule number_lists_Inr)
  from cell_SomeD [OF at] have "int r < ?rows" "int c < ?cols"
    by (auto dest: np_index_bound)
  then have r: "r < nat ?rows" and c: "c < nat ?cols"
    by simp_all
  have "g ! r ! c = np_array ords ! j"
    using fill_last_write [OF f j at last] r c by simp
  moreover have "length (indices st) \<le> length (np_array ords)"
    using fill_succeeds_iff [of "dense_shape st" _ "indices st" "np_array ords"] f by blast
  then have jo: "j < length ords"
    using j by (simp add: np_array_def)
  ultimately have cell_eq: "g ! r ! c = PyStr (np_str (ords ! j))"
    by (simp add: np_array_def)
  from translate_values_Inr [OF t] jo
  have v: "map_of om (py_str (values_arr st ! j)) = Some (ords ! j)"
    by (simp add: list_all2_conv_all_nth)
  have shape: "map length g = replicate (nat ?rows) (nat ?cols)"
    by (rule number_lists_shape(3) [OF g])
  then have "length g = nat ?rows"
    by (metis length_map length_replicate)
  with r have rg: "r < length g" by simp
  with shape r have "length (g ! r) = nat ?cols"
    by (metis nth_map nth_replicate)
  with c have cg: "c < length (g ! r)" by simp
  from mapM_nth [OF m rg] have "mapM (int_to_char cd) (g ! r) = Inr (sl ! r)" .
  from mapM_nth [OF this cg] cell_eq
  have "int_to_char cd (PyStr (np_str (ords ! j))) = Inr (sl ! r ! c)"
    by simp
  moreover have "sparse_tensor_to_str om cd st = Inr (map join_row sl)"
    using sl by (simp add: sparse_tensor_to_str_def)
  ultimately show ?thesis
    using v by blast
qed

theorem last_write_wins_witness:
  "str_lists [(lit ''0'', lit ''97''), (lit ''2'', lit ''98'')] [(lit ''97'', 97), (lit ''98'', 98)]
      \<lparr>indices = [(0, 0), (0, 0), (0, 1)], values_arr = [0, 2, 0], dense_shape = (1, 2)\<rparr>
      = Inr [lit ''ba'']
   \<and> (1 :: nat) < length [(0 :: int, 0 :: int), (0, 0), (0, 1)]
   \<and> cell (1, 2) ([(0, 0), (0, 0), (0, 1)] ! 1) = Some (0, 0)
   \<and> cell (1, 2) ([(0, 0), (0, 0), (0, 1)] ! 2) \<noteq> Some (0, 0)
   \<and> map_of [(lit ''0'', lit ''97''), (lit ''2'', lit ''98'')] (py_str ([0, 2, 0] ! 1)) = Some (lit ''98'')
   \<and> int_to_char [(lit ''97'', 97), (lit ''98'', 98)] (PyStr (np_str (lit ''98'')))
        = Inr (lit ''ba'' ! 0)
   \<and> sparse_tensor_to_str [(lit ''0'', lit ''97''), (lit ''2'', lit ''98'')]
        [(lit ''97'', 97), (lit ''98'', 98)]
        \<lparr>indices = [(0, 0), (0, 0), (0, 1)], values_arr = [0, 2, 0], dense_shape = (1, 2)\<rparr>
      = Inr [lit ''ba'']"
proof -
  let ?st = "\<lparr>indices = [(0, 0), (0, 0), (0, 1)], values_arr = [0, 2, 0], dense_shape = (1, 2)\<rparr>"
  have e: "str_lists [(lit ''0'', lit ''97''), (lit ''2'', lit ''98'')] [(lit ''97'', 97), (lit ''98'', 98)]
      ?st = Inr [lit ''ba'']"
    by code_simp
  have h1: "(1 :: nat) < length (indices ?st)" by simp
  have c1: "cell (1, 2) (0, 0) = Some (0, 0)" by code_simp
  have c2: "cell (1, 2) (0, 1) = Some (0, 1)" by code_simp
  have h2: "cell (dense_shape ?st) (indices ?st ! 1) = Some (0, 0)"
    using c1 by simp
  have k: "\<And>k :: nat. 1 < k \<and> k < 3 \<Longrightarrow> k = 2" by arith
  have h3: "\<forall>k. 1 < k \<and> k < length (indices ?st)
        \<longrightarrow> cell (dense_shape ?st) (indices ?st ! k) \<noteq> Some (0, 0)"
    using c2 by (auto dest!: k)
  have p: "py_str 2 = lit ''2''" by code_simp
  have join: "map join_row [lit ''ba''] = [lit ''ba'']" by code_simp
  from last_write_wins [OF e h1 h2 h3] obtain v where
    v: "map_of [(lit ''0'', lit ''97''), (lit ''2'', lit ''98'')] (py_str (values_arr ?st ! 1)) = Some v"
    and i: "int_to_char [(lit ''97'', 97), (lit ''98'', 98)] (PyStr (np_str v))
        = Inr ([lit ''ba''] ! 0 ! 0)"
    and s: "sparse_tensor_to_str [(lit ''0'', lit ''97''), (lit ''2'', lit ''98'')]
        [(lit ''97'', 97), (lit ''98'', 98)] ?st = Inr (map join_row [lit ''ba''])"
    by blast
  from v p have "v = lit ''98''" by simp
  with v i s e h1 h2 c2 p join show ?thesis by simp
qed

text \<open>
  Read with the pairs as they are written, the claim fails: after two entries at
  \<open>(0, 0)\<close>, a later entry at \<open>(-1, -1)\<close> of an array with one cell overwrites what
  the later of the two wrote.
\<close>

theorem last_write_counterexample:
  "sparse_tensor_to_str [(lit ''0'', lit ''97''), (lit ''2'', lit ''98''), (lit ''3'', lit ''99'')]
      [(lit ''97'', 97), (lit ''98'', 98), (lit ''99'', 99)]
      \<lparr>indices = [(0, 0), (0, 0), (- 1, - 1)], values_arr = [0, 2, 3], dense_shape = (1, 1)\<rparr>
      = Inr [lit ''c'']
   \<and> [(0 :: int, 0 :: int), (0, 0), (- 1, - 1)] ! 0 = (0, 0)
   \<and> [(0 :: int, 0 :: int), (0, 0), (- 1, - 1)] ! 1 = (0, 0)
   \<and> [(0 :: int, 0 :: int), (0, 0), (- 1, - 1)] ! 2 \<noteq> (0, 0)
   \<and> map_of [(lit ''0'', lit ''97''), (lit ''2'', lit ''98''), (lit ''3'', lit ''99'')] (py_str ([0, 2, 3] ! 1))
        = Some (lit ''98'')
   \<and> int_to_char [(lit ''97'', 97), (lit ''98'', 98), (lit ''99'', 99)]
        (PyStr (np_str (lit ''98''))) = Inr (98)"
proof -
  have e: "sparse_tensor_to_str [(lit ''0'', lit ''97''), (lit ''2'', lit ''98''), (lit ''3'', lit ''99'')]
      [(lit ''97'', 97), (lit ''98'', 98), (lit ''99'', 99)]
      \<lparr>indices = [(0, 0), (0, 0), (- 1, - 1)], values_arr = [0, 2, 3], dense_shape = (1, 1)\<rparr>
      = Inr [lit ''c'']"
    by code_simp
  have p: "py_str 2 = lit ''2''" by code_simp
  have n: "np_str (lit ''98'') = lit ''98''" by code_simp
  show ?thesis
    using e p n by (simp add: getitem_def)
qed

text \<open>
  Claim C2, amended. Let every value have its decimal string among the keys of
  \<^verbatim>\<open>ord_map\<close>, let \<^verbatim>\<open>values\<close> be as long as \<^verbatim>\<open>indices\<close>, and let neither dimension
  of \<^verbatim>\<open>dense_shape\<close> be negative. Then \<^verbatim>\<open>sparse_tensor_to_str\<close> raises
  \<^verbatim>\<open>IndexError\<close> exactly when some pair of \<^verbatim>\<open>indices\<close> has a row subscript outside
  \<open>-rows\<close> to \<open>rows - 1\<close> or a column subscript outside \<open>-cols\<close> to \<open>cols - 1\<close>. When
  all pairs are inside, it returns, provided every ordinal that \<^verbatim>\<open>ord_map\<close> gives for a
  value is \<^verbatim>\<open>'1'\<close> or a key of \<^verbatim>\<open>char_dict\<close>.
\<close>

theorem index_error_iff:
  assumes keys: "\<forall>v\<in>set (values_arr st). py_str v \<in> fst ` set om"
    and aligned: "length (values_arr st) = length (indices st)"
    and rows: "0 \<le> fst (dense_shape st)"
    and cols: "0 \<le> snd (dense_shape st)"
  shows "((sparse_tensor_to_str om cd st = Inl IndexError)
      = (\<exists>ix\<in>set (indices st).
           \<not> (- fst (dense_shape st) \<le> fst ix \<and> fst ix < fst (dense_shape st)
              \<and> - snd (dense_shape st) \<le> snd ix \<and> snd ix < snd (dense_shape st))))
    \<and> ((\<forall>ix\<in>set (indices st).
           - fst (dense_shape st) \<le> fst ix \<and> fst ix < fst (dense_shape st)
           \<and> - snd (dense_shape st) \<le> snd ix \<and> snd ix < snd (dense_shape st))
        \<and> (\<forall>v\<in>set (values_arr st). \<forall>ord. map_of om (py_str v) = Some ord
              \<longrightarrow> np_str ord = lit ''1'' \<or> np_str ord \<in> fst ` set cd)
        \<longrightarrow> (\<exists>res. sparse_tensor_to_str om cd st = Inr res))"
proof -
  let ?shape = "dense_shape st"
  let ?ok = "\<lambda>ix. - fst ?shape \<le> fst ix \<and> fst ix < fst ?shape
              \<and> - snd ?shape \<le> snd ix \<and> snd ix < snd ?shape"
  from translate_values_succeeds [OF keys] obtain ords
    where t: "translate_values om (values_arr st) = Inr ords" by blast
  let ?g0 = "replicate (nat (fst ?shape))
               (replicate (nat (snd ?shape)) (one_of_dtype (np_array ords)))"
  have nl: "number_lists om st = fill ?shape ?g0 (indices st) (np_array ords)"
    by (rule number_lists_eq_fill [OF t rows cols])
  have len: "length (indices st) \<le> length (np_array ords)"
    using translate_values_Inr [OF t] aligned
    by (simp add: np_array_def list_all2_lengthD)
  have succ: "(\<exists>g. number_lists om st = Inr g) \<longleftrightarrow> (\<forall>ix\<in>set (indices st). ?ok ix)"
    unfolding nl fill_succeeds_iff using len by (auto simp: cell_None_iff')
  have first: "(sparse_tensor_to_str om cd st = Inl IndexError)
      = (\<exists>ix\<in>set (indices st). \<not> ?ok ix)"
  proof (cases "number_lists om st")
    case (Inl e)
    then have "e = IndexError"
      unfolding nl by (rule fill_Inl)
    with Inl have "sparse_tensor_to_str om cd st = Inl IndexError"
      by (simp add: sparse_tensor_to_str_def str_lists_def)
    moreover from Inl succ have "\<exists>ix\<in>set (indices st). \<not> ?ok ix"
      by auto
    ultimately show ?thesis by simp
  next
    case (Inr g)
    then have "sparse_tensor_to_str om cd st \<noteq> Inl IndexError"
      by (rule sparse_tensor_to_str_after_fill)
    moreover from Inr succ have "\<forall>ix\<in>set (indices st). ?ok ix"
      by blast
    ultimately show ?thesis by blast
  qed
  have second: "\<exists>res. sparse_tensor_to_str om cd st = Inr res"
    if inr: "\<forall>ix\<in>set (indices st). ?ok ix"
      and known: "\<forall>v\<in>set (values_arr st). \<forall>ord. map_of om (py_str v) = Some ord
              \<longrightarrow> np_str ord = lit ''1'' \<or> np_str ord \<in> fst ` set cd"
  proof -
    from inr succ obtain g where g: "number_lists om st = Inr g" by blast
    then have f: "fill ?shape ?g0 (indices st) (np_array ords) = Inr g"
      unfolding nl .
    have cells: "\<exists>y. int_to_char cd x = Inr y" if "row \<in> set g" "x \<in> set row" for row x
    proof -
      from fill_cells [OF f that]
      have "x \<in> set (np_array ords) \<or> (\<exists>row\<in>set ?g0. x \<in> set row)" .
      then show ?thesis
      proof
        assume "x \<in> set (np_array ords)"
        then obtain ord where ord: "ord \<in> set ords" and x: "x = PyStr (np_str ord)"
          by (auto simp: np_array_def)
        from ord obtain i where i: "i < length ords" "ords ! i = ord"
          by (auto simp: in_set_conv_nth)
        from translate_values_Inr [OF t] i
        have "map_of om (py_str (values_arr st ! i)) = Some ord"
          and "values_arr st ! i \<in> set (values_arr st)"
          by (auto simp: list_all2_conv_all_nth)
        with known have "np_str ord = lit ''1'' \<or> np_str ord \<in> fst ` set cd"
          by blast
        then show ?thesis
        proof
          assume "np_str ord = lit ''1''"
          then show ?thesis by (simp add: x)
        next
          assume "np_str ord \<in> fst ` set cd"
          then have "map_of cd (np_str ord) \<noteq> None"
            by (simp add: map_of_eq_None_iff)
          then show ?thesis
            by (auto simp: x getitem_def split: option.splits)
        qed
      next
        assume "\<exists>row\<in>set ?g0. x \<in> set row"
        then have "x = one_of_dtype (np_array ords)"
          by (auto split: if_splits)
        then show ?thesis
          by (simp add: int_to_char_one)
      qed
    qed
    have "\<forall>row\<in>set g. \<exists>ys. mapM (int_to_char cd) row = Inr ys"
      by (intro ballI mapM_success) (auto dest: cells)
    then have "\<exists>sl. mapM (\<lambda>number_list. mapM (int_to_char cd) number_list) g = Inr sl"
      by (rule mapM_success)
    then show ?thesis
      using g by (auto simp: sparse_tensor_to_str_def str_lists_def)
  qed
  from first second show ?thesis by blast
qed

theorem index_error_iff_witness:
  "values_arr \<lparr>indices = [(- 1, - 1)], values_arr = [0], dense_shape = (1, 1)\<rparr> = [0]
   \<and> py_str 0 = lit ''0''
   \<and> length (values_arr \<lparr>indices = [(- 1, - 1)], values_arr = [0], dense_shape = (1, 1)\<rparr>)
       = length (indices \<lparr>indices = [(- 1, - 1)], values_arr = [0], dense_shape = (1, 1)\<rparr>)
   \<and> 0 \<le> fst (dense_shape \<lparr>indices = [(- 1, - 1)], values_arr = [0], dense_shape = (1, 1)\<rparr>)
   \<and> 0 \<le> snd (dense_shape \<lparr>indices = [(- 1, - 1)], values_arr = [0], dense_shape = (1, 1)\<rparr>)
   \<and> sparse_tensor_to_str [(lit ''0'', lit ''97'')] [(lit ''97'', 97)]
        \<lparr>indices = [(- 1, - 1)], values_arr = [0], dense_shape = (1, 1)\<rparr> \<noteq> Inl IndexError
   \<and> \<not> isl (sparse_tensor_to_str [(lit ''0'', lit ''97'')] [(lit ''97'', 97)]
        \<lparr>indices = [(- 1, - 1)], values_arr = [0], dense_shape = (1, 1)\<rparr>)
   \<and> sparse_tensor_to_str [(lit ''0'', lit ''97'')] [(lit ''97'', 97)]
        \<lparr>indices = [(1, 0)], values_arr = [0], dense_shape = (1, 1)\<rparr> = Inl IndexError"
proof -
  let ?om = "[(lit ''0'', lit ''97'')]" and ?cd = "[(lit ''97'', 97)]"
  let ?A = "\<lparr>indices = [(- 1, - 1)], values_arr = [0], dense_shape = (1, 1)\<rparr>"
  let ?B = "\<lparr>indices = [(1, 0)], values_arr = [0], dense_shape = (1, 1)\<rparr>"
  have p: "py_str 0 = lit ''0''" by code_simp
  have n: "np_str (lit ''97'') = lit ''97''" by code_simp
  have kA: "\<forall>v\<in>set (values_arr ?A). py_str v \<in> fst ` set ?om"
    using p by simp
  have kB: "\<forall>v\<in>set (values_arr ?B). py_str v \<in> fst ` set ?om"
    using p by simp
  have aA: "length (values_arr ?A) = length (indices ?A)" by simp
  have aB: "length (values_arr ?B) = length (indices ?B)" by simp
  have rA: "0 \<le> fst (dense_shape ?A)" and cA: "0 \<le> snd (dense_shape ?A)" by simp_all
  have rB: "0 \<le> fst (dense_shape ?B)" and cB: "0 \<le> snd (dense_shape ?B)" by simp_all
  have known: "\<forall>v\<in>set (values_arr ?A). \<forall>ord. map_of ?om (py_str v) = Some ord
      \<longrightarrow> np_str ord = lit ''1'' \<or> np_str ord \<in> fst ` set ?cd"
    using p n by simp
  note A = index_error_iff [OF kA aA rA cA, of ?cd]
  note B = index_error_iff [OF kB aB rB cB, of ?cd]
  from A have "sparse_tensor_to_str ?om ?cd ?A \<noteq> Inl IndexError"
    by simp
  moreover from A known have "\<exists>res. sparse_tensor_to_str ?om ?cd ?A = Inr res"
    by simp
  then have "\<not> isl (sparse_tensor_to_str ?om ?cd ?A)"
    by auto
  moreover from B have "sparse_tensor_to_str ?om ?cd ?B = Inl IndexError"
    by simp
  ultimately show ?thesis
    using p by simp
qed

text \<open>
  With the bounds from 0 the claim fails: the pair \<open>(-1, -1)\<close> lies outside them, and
  the call returns, the value written to the last cell of the array.
\<close>

theorem index_error_counterexample:
  "sparse_tensor_to_str [(lit ''0'', lit ''97'')] [(lit ''97'', 97)]
      \<lparr>indices = [(- 1, - 1)], values_arr = [0], dense_shape = (1, 1)\<rparr> = Inr [lit ''a'']
   \<and> 0 \<le> fst (dense_shape \<lparr>indices = [(- 1, - 1)], values_arr = [0], dense_shape = (1, 1)\<rparr>)
   \<and> 0 \<le> snd (dense_shape \<lparr>indices = [(- 1, - 1)], values_arr = [0], dense_shape = (1, 1)\<rparr>)
   \<and> (- 1, - 1) \<in> set (indices \<lparr>indices = [(- 1, - 1)], values_arr = [0], dense_shape = (1, 1)\<rparr>)
   \<and> \<not> (0 \<le> fst (- 1 :: int, - 1 :: int) \<and> fst (- 1 :: int, - 1 :: int) < 1
         \<and> 0 \<le> snd (- 1 :: int, - 1 :: int) \<and> snd (- 1 :: int, - 1 :: int) < 1)"
proof -
  have e: "sparse_tensor_to_str [(lit ''0'', lit ''97'')] [(lit ''97'', 97)]
      \<lparr>indices = [(- 1, - 1)], values_arr = [0], dense_shape = (1, 1)\<rparr> = Inr [lit ''a'']"
    by code_simp
  show ?thesis
    using e by simp
qed

section \<open>The writer\<close>

text \<open>
  Claim C5. When the lists of labels, images and image names do not all have the same
  length, \<^verbatim>\<open>write_features\<close> raises \<^verbatim>\<open>AssertionError\<close> and no example has been
  written.
\<close>

theorem write_features_precondition:
  "\<not> (length labels_in = length images_in \<and> length images_in = length imagenames_in)
   \<Longrightarrow> write_features py om labels_in images_in imagenames_in = (Some AssertionError, [])"
  by (simp add: write_features_def)

theorem write_features_precondition_witness:
  "\<not> (length [lit ''ab'', lit ''a'', lit ''b''] = length [[1 :: 8 word], [2]]
       \<and> length [[1 :: 8 word], [2]] = length [lit ''x'', lit ''y'', lit ''z''])
   \<and> write_features example_builtins [(lit ''0'', lit ''97''), (lit ''2'', lit ''98'')]
        [lit ''ab'', lit ''a'', lit ''b''] [[1], [2]] [lit ''x'', lit ''y'', lit ''z'']
      = (Some AssertionError, [])"
  using write_features_precondition
    [of "[lit ''ab'', lit ''a'', lit ''b'']" "[[1], [2]]" "[lit ''x'', lit ''y'', lit ''z'']"
        example_builtins "[(lit ''0'', lit ''97''), (lit ''2'', lit ''98'')]"]
  by simp

end
